theory Spec2Isabelle
  imports Complex_Main "HOL-Library.Sublist"
begin

section \<open>Data model\<close>

text \<open>
  The agent of \<^verbatim>\<open>electron/main/ai/agent.ts\<close> and the tool executors registered
  beside it. JavaScript numbers that the code uses as counters, years, months and
  limits are modelled as \<^typ>\<open>int\<close>; the configured maximum of tool rounds, which the
  constructor takes unchecked, is a rational number; the bounds of a time filter are
  integers or NaN. An optional field is an \<^typ>\<open>'a option\<close>. Source strings beyond ASCII
  are kept as their UTF-8 bytes.
\<close>

subsection \<open>Values exchanged as JSON\<close>

text \<open>
  The JavaScript values the agent and the executors build and pass on: an object is the
  list of its properties in their order, a number is an integer or NaN.
\<close>

datatype jsval =
    JUndefined
  | JNull
  | JNaN
  | JBool bool
  | JNum int
  | JStr string
  | JArr "jsval list"
  | JObj "(string \<times> jsval) list"

subsection \<open>Types of the chat-model client (\<^verbatim>\<open>./llm/types\<close>)\<close>

text \<open>
  Modelled from the spec: the declarations of \<^verbatim>\<open>./llm/types\<close> are not among the sources.
  The records have the fields the agent reads and writes, as the data model of the
  specification names them. A \<^verbatim>\<open>ToolCall\<close> is
  \<^verbatim>\<open>{id, type: 'function', function: {name, arguments}}\<close>; \<^verbatim>\<open>ChatOptions\<close> has the two
  fields of the agent's default and the \<^verbatim>\<open>tools\<close> the agent adds to them.
\<close>

record ToolCall =
  call_id :: string
  function_name :: string
  function_arguments :: string

datatype Role = System | User | Assistant | Tool

record ChatMessage =
  role :: Role
  content :: string
  tool_calls :: "ToolCall list option"
  tool_call_id :: "string option"

record ToolDefinition =
  tool_name :: string
  tool_description :: string
  tool_parameters :: jsval

record ChatOptions =
  temperature :: "rat option"
  maxTokens :: "int option"
  tools :: "ToolDefinition list option"

text \<open>The buffered response: \<^verbatim>\<open>{content, finishReason, tool_calls?}\<close>.\<close>

record ChatResponse =
  response_content :: string
  response_finishReason :: string
  response_tool_calls :: "ToolCall list option"

text \<open>One chunk of the streamed response.\<close>

record ChatStreamChunk =
  chunk_content :: "string option"
  chunk_tool_calls :: "ToolCall list option"
  isFinished :: bool
  finishReason :: "string option"

subsection \<open>Types of the tool layer (\<^verbatim>\<open>./tools/types\<close>)\<close>

text \<open>
  Modelled from the spec: the declarations of \<^verbatim>\<open>./tools/types\<close> are not among the
  sources. A context is a session identifier and an optional time filter, whose bounds
  are epoch seconds; a bound computed from an invalid \<^verbatim>\<open>Date\<close> is NaN.
  The outcome of one dispatched call, \<^verbatim>\<open>{success, result?, error?}\<close>: the code reads
  \<^verbatim>\<open>result.result\<close> when \<^verbatim>\<open>success\<close> holds and \<^verbatim>\<open>result.error\<close> otherwise. The
  payload of a success is optional: \<^verbatim>\<open>Success JUndefined\<close> is a success without one.
\<close>

datatype number = Number int | NaN

record TimeFilter =
  startTs :: number
  endTs :: number

record ToolContext =
  sessionId :: string
  timeFilter :: "TimeFilter option"

datatype ToolExecutionResult = Success jsval | Failure string

subsection \<open>Types of the agent\<close>

text \<open>
  \<^verbatim>\<open>maxToolRounds\<close> is a number the constructor does not check: it may be negative or
  fractional. (NaN and the infinities are left out.)
\<close>

record AgentConfig =
  maxToolRounds :: "rat option"
  llmOptions :: "ChatOptions option"

text \<open>
  \<^verbatim>\<open>AgentStreamChunk\<close> is a record tagged by its \<^verbatim>\<open>type\<close> field; each constructor
  carries the fields the code sets for that tag. \<^verbatim>\<open>toolParams\<close> is \<^verbatim>\<open>undefined\<close>
  (\<open>None\<close>) when the arguments do not parse.
\<close>

datatype AgentStreamChunk =
    Content_chunk string
  | Tool_start string "jsval option"
  | Tool_result string jsval
  | Done_chunk
  | Error_chunk string

record AgentResult =
  result_content :: string
  result_toolsUsed :: "string list"
  result_toolRounds :: int

datatype error = TransportError string | TypeError

subsection \<open>The interactions of a run\<close>

text \<open>
  Every call the agent makes to a collaborator and every chunk it hands to the
  \<^verbatim>\<open>onChunk\<close> callback is recorded, in order, in a trace kept beside the agent's
  fields. The trace is bookkeeping of the model: the code has no such field.
\<close>

datatype interaction =
    Chat_call "ChatMessage list" ChatOptions
  | ChatStream_call "ChatMessage list" ChatOptions
  | Dispatch "ToolCall list"
  | Emit AgentStreamChunk

fun is_model_call :: "interaction \<Rightarrow> bool" where
  "is_model_call (Chat_call _ _) = True"
| "is_model_call (ChatStream_call _ _) = True"
| "is_model_call _ = False"

fun is_dispatch :: "interaction \<Rightarrow> bool" where
  "is_dispatch (Dispatch _) = True"
| "is_dispatch _ = False"

fun is_emit :: "interaction \<Rightarrow> bool" where
  "is_emit (Emit _) = True"
| "is_emit _ = False"

definition model_calls :: "interaction list \<Rightarrow> nat" where
  "model_calls tr = length (filter is_model_call tr)"

definition dispatches :: "interaction list \<Rightarrow> nat" where
  "dispatches tr = length (filter is_dispatch tr)"

definition emitted :: "interaction list \<Rightarrow> AgentStreamChunk list" where
  "emitted tr = concat (map (\<lambda>i. case i of Emit c \<Rightarrow> [c] | _ \<Rightarrow> []) tr)"

text \<open>
  The collaborators the agent imports (\<^verbatim>\<open>chat\<close> and \<^verbatim>\<open>chatStream\<close> of \<^verbatim>\<open>./llm\<close>,
  \<^verbatim>\<open>getAllToolDefinitions\<close> and \<^verbatim>\<open>executeToolCalls\<close> of \<^verbatim>\<open>./tools\<close>, none of them
  among the sources) and the language built-ins it calls, as parameters. The model
  client and the dispatcher take the number of earlier calls of their kind in the run,
  so that any sequence of answers is a value of this record. \<^verbatim>\<open>chatStream\<close> answers
  with the chunks it yields and the error it throws after them, if any.
  \<^verbatim>\<open>systemPrompt\<close> is the text \<^verbatim>\<open>getSystemPrompt()\<close> builds from the clock.
\<close>

record env =
  systemPrompt :: string
  getAllToolDefinitions :: "ToolDefinition list"
  chat :: "nat \<Rightarrow> ChatMessage list \<Rightarrow> ChatOptions \<Rightarrow> error + ChatResponse"
  chatStream :: "nat \<Rightarrow> ChatMessage list \<Rightarrow> ChatOptions \<Rightarrow> ChatStreamChunk list \<times> error option"
  executeToolCalls :: "nat \<Rightarrow> ToolCall list \<Rightarrow> ToolContext \<Rightarrow> ToolExecutionResult list"
  JSON_parse :: "string \<Rightarrow> jsval option"
  JSON_stringify :: "jsval \<Rightarrow> string"

text \<open>The fields of an \<^verbatim>\<open>Agent\<close> instance: the constructor's and the per-run ones.\<close>

record Agent =
  agent_context :: ToolContext
  config_maxToolRounds :: rat
  config_llmOptions :: ChatOptions

record run_state =
  messages :: "ChatMessage list"
  toolsUsed :: "string list"
  toolRounds :: int
  trace :: "interaction list"

section \<open>The agent\<close>

definition default_llmOptions :: ChatOptions where
  "default_llmOptions = \<lparr>temperature = Some (7 / 10), maxTokens = Some 2048, tools = None\<rparr>"

definition new_Agent :: "ToolContext \<Rightarrow> AgentConfig \<Rightarrow> Agent" where
  "new_Agent ctx config =
     \<lparr>agent_context = ctx,
      config_maxToolRounds = (case maxToolRounds config of None \<Rightarrow> 5 | Some m \<Rightarrow> m),
      config_llmOptions = (case llmOptions config of None \<Rightarrow> default_llmOptions | Some opts \<Rightarrow> opts)\<rparr>"

definition empty_config :: AgentConfig where
  "empty_config = \<lparr>maxToolRounds = None, llmOptions = None\<rparr>"

definition message :: "Role \<Rightarrow> string \<Rightarrow> ChatMessage" where
  "message r c = \<lparr>role = r, content = c, tool_calls = None, tool_call_id = None\<rparr>"

definition assistant_message :: "ToolCall list \<Rightarrow> ChatMessage" where
  "assistant_message tcs = \<lparr>role = Assistant, content = [], tool_calls = Some tcs, tool_call_id = None\<rparr>"

definition tool_message :: "string \<Rightarrow> string \<Rightarrow> ChatMessage" where
  "tool_message c i = \<lparr>role = Tool, content = c, tool_calls = None, tool_call_id = Some i\<rparr>"

text \<open>The prefix the source puts before \<^verbatim>\<open>result.error\<close> in a failed tool's message.\<close>

definition error_prefix :: string where
  "error_prefix = map char_of [0xE9, 0x94, 0x99, 0xE8, 0xAF, 0xAF, 0x3A, 0x20 :: nat]"

text \<open>The user message pushed when the round budget is used up.\<close>

definition forced_finish_prompt :: string where
  "forced_finish_prompt = map char_of
     [0xE8, 0xAF, 0xB7, 0xE6, 0xA0, 0xB9, 0xE6, 0x8D, 0xAE, 0xE5, 0xB7, 0xB2, 0xE8, 0x8E,
      0xB7, 0xE5, 0x8F, 0x96, 0xE7, 0x9A, 0x84, 0xE4, 0xBF, 0xA1, 0xE6, 0x81, 0xAF, 0xE7,
      0xBB, 0x99, 0xE5, 0x87, 0xBA, 0xE5, 0x9B, 0x9E, 0xE7, 0xAD, 0x94, 0xEF, 0xBC, 0x8C,
      0xE4, 0xB8, 0x8D, 0xE8, 0xA6, 0x81, 0xE5, 0x86, 0x8D, 0xE8, 0xB0, 0x83, 0xE7, 0x94,
      0xA8, 0xE5, 0xB7, 0xA5, 0xE5, 0x85, 0xB7, 0xE3, 0x80, 0x82 :: nat]"

definition init_state :: "env \<Rightarrow> string \<Rightarrow> run_state" where
  "init_state e userMessage =
     \<lparr>messages = [message System (systemPrompt e), message User userMessage],
      toolsUsed = [], toolRounds = 0, trace = []\<rparr>"

definition record_interaction :: "interaction \<Rightarrow> run_state \<Rightarrow> run_state" where
  "record_interaction i st = st\<lparr>trace := trace st @ [i]\<rparr>"

definition push_message :: "ChatMessage \<Rightarrow> run_state \<Rightarrow> run_state" where
  "push_message m st = st\<lparr>messages := messages st @ [m]\<rparr>"

definition with_tools :: "ChatOptions \<Rightarrow> ToolDefinition list \<Rightarrow> ChatOptions" where
  "with_tools opts ts = opts\<lparr>tools := Some ts\<rparr>"

definition result_of :: "string \<Rightarrow> run_state \<Rightarrow> AgentResult" where
  "result_of c st =
     \<lparr>result_content = c, result_toolsUsed = toolsUsed st, result_toolRounds = toolRounds st\<rparr>"

subsection \<open>\<^verbatim>\<open>handleToolCalls\<close>\<close>

text \<open>
  \<^verbatim>\<open>JSON.stringify\<close> answers \<^verbatim>\<open>undefined\<close> (\<open>None\<close>) for \<^verbatim>\<open>undefined\<close>, and the text
  that the parameter \<^verbatim>\<open>JSON_stringify\<close> gives for every other value.
\<close>

definition stringify :: "env \<Rightarrow> jsval \<Rightarrow> string option" where
  "stringify e v = (if v = JUndefined then None else Some (JSON_stringify e v))"

definition tool_result_value :: "ToolExecutionResult \<Rightarrow> jsval" where
  "tool_result_value r = (case r of Success v \<Rightarrow> v | Failure err \<Rightarrow> JStr err)"

text \<open>
  The content of the tool message. For a success without payload the content is
  \<^verbatim>\<open>undefined\<close>, here the empty text: the iteration that pushes it does not end.
\<close>

definition tool_message_content :: "env \<Rightarrow> ToolExecutionResult \<Rightarrow> string" where
  "tool_message_content e r =
     (case r of
        Success v \<Rightarrow> (case stringify e v of None \<Rightarrow> [] | Some s \<Rightarrow> s)
      | Failure err \<Rightarrow> error_prefix @ err)"

text \<open>
  The \<^verbatim>\<open>resultLength\<close> of the log entry that ends an iteration,
  \<^verbatim>\<open>result.success ? JSON.stringify(result.result).length : result.error?.length\<close>:
  reading \<^verbatim>\<open>length\<close> of \<^verbatim>\<open>undefined\<close> throws a TypeError.
\<close>

definition resultLength :: "env \<Rightarrow> ToolExecutionResult \<Rightarrow> error + nat" where
  "resultLength e r =
     (case r of
        Success v \<Rightarrow> (case stringify e v of None \<Rightarrow> Inl TypeError | Some s \<Rightarrow> Inr (length s))
      | Failure err \<Rightarrow> Inr (length err))"

text \<open>
  The loop over \<^verbatim>\<open>i < toolCalls.length\<close>: \<^verbatim>\<open>results[i]\<close> is \<^verbatim>\<open>undefined\<close> past
  the end of \<^verbatim>\<open>results\<close>, and reading \<^verbatim>\<open>result.success\<close> then throws a TypeError.
  An iteration pushes the tool's name, hands the \<^verbatim>\<open>tool_result\<close> chunk to the callback,
  pushes the tool message and writes the log entry. \<open>notify\<close> says whether an
  \<^verbatim>\<open>onChunk\<close> callback was passed.
\<close>

fun add_tool_messages ::
  "env \<Rightarrow> bool \<Rightarrow> ToolCall list \<Rightarrow> ToolExecutionResult list \<Rightarrow> run_state \<Rightarrow> error + run_state" where
  "add_tool_messages e notify [] results st = Inr st"
| "add_tool_messages e notify (tc # tcs) [] st = Inl TypeError"
| "add_tool_messages e notify (tc # tcs) (result # results) st =
     (let st1 = push_message (tool_message (tool_message_content e result) (call_id tc))
                  ((if notify
                    then record_interaction (Emit (Tool_result (function_name tc) (tool_result_value result)))
                    else (\<lambda>s. s))
                   (st\<lparr>toolsUsed := toolsUsed st @ [function_name tc]\<rparr>))
      in case resultLength e result of
           Inl err \<Rightarrow> Inl err
         | Inr n \<Rightarrow> add_tool_messages e notify tcs results st1)"

definition handleToolCalls ::
  "env \<Rightarrow> Agent \<Rightarrow> ToolCall list \<Rightarrow> bool \<Rightarrow> run_state \<Rightarrow> error + run_state" where
  "handleToolCalls e ag toolCalls notify st =
     (let st1 = push_message (assistant_message toolCalls) st;
          results = executeToolCalls e (dispatches (trace st1)) toolCalls (agent_context ag);
          st2 = record_interaction (Dispatch toolCalls) st1
      in add_tool_messages e notify toolCalls results st2)"

subsection \<open>\<^verbatim>\<open>execute\<close>\<close>

text \<open>The forced summary after the loop: one more user message, one call with the bare options.\<close>

definition forced_finish :: "env \<Rightarrow> Agent \<Rightarrow> run_state \<Rightarrow> error + (AgentResult \<times> run_state)" where
  "forced_finish e ag st =
     (let st1 = push_message (message User forced_finish_prompt) st;
          answer = chat e (model_calls (trace st1)) (messages st1) (config_llmOptions ag);
          st2 = record_interaction (Chat_call (messages st1) (config_llmOptions ag)) st1
      in case answer of
           Inl err \<Rightarrow> Inl err
         | Inr finalResponse \<Rightarrow> Inr (result_of (response_content finalResponse) st2, st2))"

datatype round_outcome =
    Return AgentResult run_state
  | Continue run_state

text \<open>
  One iteration of the \<^verbatim>\<open>while\<close> loop of \<^verbatim>\<open>execute\<close>. The round returns when
  \<^verbatim>\<open>finishReason !== 'tool_calls' || !response.tool_calls\<close> holds.
\<close>

definition execute_round ::
  "env \<Rightarrow> Agent \<Rightarrow> ToolDefinition list \<Rightarrow> run_state \<Rightarrow> error + round_outcome" where
  "execute_round e ag tls st =
     (let opts = with_tools (config_llmOptions ag) tls;
          answer = chat e (model_calls (trace st)) (messages st) opts;
          st1 = record_interaction (Chat_call (messages st) opts) st
      in case answer of
           Inl err \<Rightarrow> Inl err
         | Inr response \<Rightarrow>
             (case response_tool_calls response of
                None \<Rightarrow> Inr (Return (result_of (response_content response) st1) st1)
              | Some toolCalls \<Rightarrow>
                  if response_finishReason response \<noteq> ''tool_calls''
                  then Inr (Return (result_of (response_content response) st1) st1)
                  else (case handleToolCalls e ag toolCalls False st1 of
                          Inl err \<Rightarrow> Inl err
                        | Inr st2 \<Rightarrow> Inr (Continue (st2\<lparr>toolRounds := toolRounds st2 + 1\<rparr>)))))"

lemma add_tool_messages_toolRounds:
  "add_tool_messages e notify tcs results st = Inr st' \<Longrightarrow> toolRounds st' = toolRounds st"
  by (induction e notify tcs results st rule: add_tool_messages.induct)
     (auto simp: push_message_def record_interaction_def Let_def split: sum.splits)

lemma handleToolCalls_toolRounds:
  "handleToolCalls e ag tcs notify st = Inr st' \<Longrightarrow> toolRounds st' = toolRounds st"
  by (auto simp: handleToolCalls_def Let_def push_message_def record_interaction_def
           dest!: add_tool_messages_toolRounds)

lemma execute_round_toolRounds:
  "execute_round e ag tls st = Inr (Continue st') \<Longrightarrow> toolRounds st' = toolRounds st + 1"
  by (auto simp: execute_round_def Let_def record_interaction_def
           split: sum.splits option.splits if_splits
           dest!: handleToolCalls_toolRounds)

function execute_loop ::
  "env \<Rightarrow> Agent \<Rightarrow> ToolDefinition list \<Rightarrow> run_state \<Rightarrow> error + (AgentResult \<times> run_state)" where
  "execute_loop e ag tls st =
     (if of_int (toolRounds st) < config_maxToolRounds ag then
        (case execute_round e ag tls st of
           Inl err \<Rightarrow> Inl err
         | Inr (Return r st') \<Rightarrow> Inr (r, st')
         | Inr (Continue st') \<Rightarrow> execute_loop e ag tls st')
      else forced_finish e ag st)"
  by pat_completeness auto
termination
  by (relation "measure (\<lambda>(e, ag, tls, st). nat (\<lceil>config_maxToolRounds ag\<rceil> - toolRounds st))")
     (auto dest!: execute_round_toolRounds simp: less_ceiling_iff)

declare execute_loop.simps [simp del]

definition execute :: "env \<Rightarrow> Agent \<Rightarrow> string \<Rightarrow> error + (AgentResult \<times> run_state)" where
  "execute e ag userMessage = execute_loop e ag (getAllToolDefinitions e) (init_state e userMessage)"

subsection \<open>\<^verbatim>\<open>executeStream\<close>\<close>

text \<open>
  The object spread \<^verbatim>\<open>{...toolParams, _timeFilter: f}\<close>: the own enumerable properties
  of the parsed value (those of an object, the indexed elements of an array or of a
  string, none for a number, a boolean or \<^verbatim>\<open>null\<close>), then the property
  \<^verbatim>\<open>_timeFilter\<close>, which replaces a property of that name where it stands.
\<close>

fun decimal :: "nat \<Rightarrow> string" where
  "decimal n = (if n < 10 then [char_of (48 + n)] else decimal (n div 10) @ [char_of (48 + n mod 10)])"

definition spread :: "jsval \<Rightarrow> (string \<times> jsval) list" where
  "spread v =
     (case v of
        JObj props \<Rightarrow> props
      | JArr xs \<Rightarrow> zip (map decimal [0..<length xs]) xs
      | JStr s \<Rightarrow> zip (map decimal [0..<length s]) (map (\<lambda>c. JStr [c]) s)
      | _ \<Rightarrow> [])"

fun set_property :: "string \<Rightarrow> jsval \<Rightarrow> (string \<times> jsval) list \<Rightarrow> (string \<times> jsval) list" where
  "set_property k v [] = [(k, v)]"
| "set_property k v ((k', v') # props) =
     (if k' = k then (k, v) # props else (k', v') # set_property k v props)"

definition number_value :: "number \<Rightarrow> jsval" where
  "number_value x = (case x of Number n \<Rightarrow> JNum n | NaN \<Rightarrow> JNaN)"

definition timeFilter_value :: "TimeFilter \<Rightarrow> jsval" where
  "timeFilter_value f =
     JObj [(''startTs'', number_value (startTs f)), (''endTs'', number_value (endTs f))]"

text \<open>The \<^verbatim>\<open>toolParams\<close> of a \<^verbatim>\<open>tool_start\<close> chunk; \<open>None\<close> when \<^verbatim>\<open>JSON.parse\<close> throws.\<close>

definition tool_start_params :: "env \<Rightarrow> Agent \<Rightarrow> ToolCall \<Rightarrow> jsval option" where
  "tool_start_params e ag tc =
     (case JSON_parse e (if function_arguments tc = [] then ''{}'' else function_arguments tc) of
        None \<Rightarrow> None
      | Some parsed \<Rightarrow>
          (case timeFilter (agent_context ag) of
             None \<Rightarrow> Some parsed
           | Some f \<Rightarrow>
               if function_name tc = ''search_messages'' \<or> function_name tc = ''get_recent_messages''
               then Some (JObj (set_property ''_timeFilter'' (timeFilter_value f) (spread parsed)))
               else Some parsed))"

definition tool_start_chunk :: "env \<Rightarrow> Agent \<Rightarrow> ToolCall \<Rightarrow> AgentStreamChunk" where
  "tool_start_chunk e ag tc = Tool_start (function_name tc) (tool_start_params e ag tc)"

fun announce_tools :: "env \<Rightarrow> Agent \<Rightarrow> ToolCall list \<Rightarrow> run_state \<Rightarrow> run_state" where
  "announce_tools e ag [] st = st"
| "announce_tools e ag (tc # tcs) st =
     announce_tools e ag tcs (record_interaction (Emit (tool_start_chunk e ag tc)) st)"

text \<open>
  The \<^verbatim>\<open>for await\<close> over the chunks of one round. It ends either by the
  \<^verbatim>\<open>return\<close> inside it or when the chunks are used up, with the accumulated text and
  the tool calls last seen.
\<close>

datatype chunks_outcome =
    Returned string run_state
  | Drained string "ToolCall list option" run_state

text \<open>The text of a chunk; the empty text, like an absent one, is falsy and skipped.\<close>

definition chunk_text :: "ChatStreamChunk \<Rightarrow> string" where
  "chunk_text chunk = (case chunk_content chunk of None \<Rightarrow> [] | Some c \<Rightarrow> c)"

definition emit_content :: "string \<Rightarrow> run_state \<Rightarrow> run_state" where
  "emit_content t st = (if t \<noteq> [] then record_interaction (Emit (Content_chunk t)) st else st)"

fun consume_chunks ::
  "ChatStreamChunk list \<Rightarrow> string \<Rightarrow> ToolCall list option \<Rightarrow> run_state \<Rightarrow> chunks_outcome" where
  "consume_chunks [] accumulatedContent toolCalls st = Drained accumulatedContent toolCalls st"
| "consume_chunks (chunk # rest) accumulatedContent toolCalls st =
     (let st1 = emit_content (chunk_text chunk) st;
          toolCalls1 = (case chunk_tool_calls chunk of None \<Rightarrow> toolCalls | Some tcs \<Rightarrow> Some tcs)
      in if isFinished chunk \<and> (finishReason chunk \<noteq> Some ''tool_calls'' \<or> toolCalls1 = None)
         then Returned (accumulatedContent @ chunk_text chunk) (record_interaction (Emit Done_chunk) st1)
         else consume_chunks rest (accumulatedContent @ chunk_text chunk) toolCalls1 st1)"

text \<open>One iteration of the \<^verbatim>\<open>while\<close> loop of \<^verbatim>\<open>executeStream\<close>.\<close>

definition stream_round ::
  "env \<Rightarrow> Agent \<Rightarrow> ToolDefinition list \<Rightarrow> run_state \<Rightarrow> error + round_outcome" where
  "stream_round e ag tls st =
     (let opts = with_tools (config_llmOptions ag) tls;
          answer = chatStream e (model_calls (trace st)) (messages st) opts;
          st1 = record_interaction (ChatStream_call (messages st) opts) st
      in case consume_chunks (fst answer) [] None st1 of
           Returned finalContent st2 \<Rightarrow> Inr (Return (result_of finalContent st2) st2)
         | Drained accumulatedContent toolCalls st2 \<Rightarrow>
             (case snd answer of
                Some err \<Rightarrow> Inl err
              | None \<Rightarrow>
                  (case toolCalls of
                     None \<Rightarrow> Inr (Continue st2)
                   | Some tcs \<Rightarrow>
                       if tcs = [] then Inr (Continue st2)
                       else (case handleToolCalls e ag tcs True (announce_tools e ag tcs st2) of
                               Inl err \<Rightarrow> Inl err
                             | Inr st3 \<Rightarrow> Inr (Continue (st3\<lparr>toolRounds := toolRounds st3 + 1\<rparr>))))))"

text \<open>The last round, without tools: every chunk is read, \<^verbatim>\<open>finalContent\<close> starts empty.\<close>

fun finish_chunks :: "ChatStreamChunk list \<Rightarrow> string \<Rightarrow> run_state \<Rightarrow> string \<times> run_state" where
  "finish_chunks [] finalContent st = (finalContent, st)"
| "finish_chunks (chunk # rest) finalContent st =
     (let st1 = emit_content (chunk_text chunk) st;
          st2 = (if isFinished chunk then record_interaction (Emit Done_chunk) st1 else st1)
      in finish_chunks rest (finalContent @ chunk_text chunk) st2)"

definition forced_finish_stream ::
  "env \<Rightarrow> Agent \<Rightarrow> run_state \<Rightarrow> error + (AgentResult \<times> run_state)" where
  "forced_finish_stream e ag st =
     (let st1 = push_message (message User forced_finish_prompt) st;
          answer = chatStream e (model_calls (trace st1)) (messages st1) (config_llmOptions ag);
          st2 = record_interaction (ChatStream_call (messages st1) (config_llmOptions ag)) st1;
          fin = finish_chunks (fst answer) [] st2
      in case snd answer of
           Some err \<Rightarrow> Inl err
         | None \<Rightarrow> Inr (result_of (fst fin) (snd fin), snd fin))"

text \<open>
  The \<^verbatim>\<open>while\<close> loop of \<^verbatim>\<open>executeStream\<close>. A round that drains its chunks without
  a non-empty tool-call list leaves \<^verbatim>\<open>toolRounds\<close> as it was, so the loop has no
  bound of its own: the first argument bounds the number of iterations, and \<open>None\<close>
  says that the loop was still running when they were used up.
\<close>

fun executeStream_loop ::
  "nat \<Rightarrow> env \<Rightarrow> Agent \<Rightarrow> ToolDefinition list \<Rightarrow> run_state \<Rightarrow> (error + (AgentResult \<times> run_state)) option" where
  "executeStream_loop 0 e ag tls st =
     (if of_int (toolRounds st) < config_maxToolRounds ag then None
      else Some (forced_finish_stream e ag st))"
| "executeStream_loop (Suc n) e ag tls st =
     (if of_int (toolRounds st) < config_maxToolRounds ag then
        (case stream_round e ag tls st of
           Inl err \<Rightarrow> Some (Inl err)
         | Inr (Return r st') \<Rightarrow> Some (Inr (r, st'))
         | Inr (Continue st') \<Rightarrow> executeStream_loop n e ag tls st')
      else Some (forced_finish_stream e ag st))"

definition executeStream ::
  "nat \<Rightarrow> env \<Rightarrow> Agent \<Rightarrow> string \<Rightarrow> (error + (AgentResult \<times> run_state)) option" where
  "executeStream n e ag userMessage =
     executeStream_loop n e ag (getAllToolDefinitions e) (init_state e userMessage)"

text \<open>The convenience functions \<^verbatim>\<open>runAgent\<close> and \<^verbatim>\<open>runAgentStream\<close>.\<close>

definition runAgent :: "env \<Rightarrow> string \<Rightarrow> ToolContext \<Rightarrow> AgentConfig \<Rightarrow> error + (AgentResult \<times> run_state)" where
  "runAgent e userMessage ctx config = execute e (new_Agent ctx config) userMessage"

definition runAgentStream ::
  "nat \<Rightarrow> env \<Rightarrow> string \<Rightarrow> ToolContext \<Rightarrow> AgentConfig \<Rightarrow> (error + (AgentResult \<times> run_state)) option" where
  "runAgentStream n e userMessage ctx config = executeStream n e (new_Agent ctx config) userMessage"

subsection \<open>Reading a run\<close>

text \<open>The histories and the options the model was called with, in the order of the calls.\<close>

fun histories :: "interaction list \<Rightarrow> ChatMessage list list" where
  "histories [] = []"
| "histories (Chat_call ms opts # tr) = ms # histories tr"
| "histories (ChatStream_call ms opts # tr) = ms # histories tr"
| "histories (i # tr) = histories tr"

fun call_options :: "interaction list \<Rightarrow> ChatOptions list" where
  "call_options [] = []"
| "call_options (Chat_call ms opts # tr) = opts # call_options tr"
| "call_options (ChatStream_call ms opts # tr) = opts # call_options tr"
| "call_options (i # tr) = call_options tr"

text \<open>The messages and the chunks one batch of results adds, in the order of the requests.\<close>

definition tool_messages :: "env \<Rightarrow> ToolCall list \<Rightarrow> ToolExecutionResult list \<Rightarrow> ChatMessage list" where
  "tool_messages e tcs results =
     map (\<lambda>(tc, r). tool_message (tool_message_content e r) (call_id tc)) (zip tcs results)"

definition tool_result_chunks :: "ToolCall list \<Rightarrow> ToolExecutionResult list \<Rightarrow> AgentStreamChunk list" where
  "tool_result_chunks tcs results =
     map (\<lambda>(tc, r). Tool_result (function_name tc) (tool_result_value r)) (zip tcs results)"

text \<open>
  The link between tool messages and requests: read from the left, a history keeps the
  assistant message it has just passed, until a system or user message follows. An
  assistant message has empty content and a list of requests; a tool message stands
  after such an assistant message, with only tool messages between them, and its
  \<^verbatim>\<open>tool_call_id\<close> is the id of one of that message's requests.
\<close>

definition answers_request :: "ChatMessage \<Rightarrow> ChatMessage \<Rightarrow> bool" where
  "answers_request a m =
     (case tool_calls a of
        None \<Rightarrow> False
      | Some tcs \<Rightarrow> content a = [] \<and> list_ex (\<lambda>tc. tool_call_id m = Some (call_id tc)) tcs)"

fun tool_links_from :: "ChatMessage option \<Rightarrow> ChatMessage list \<Rightarrow> bool" where
  "tool_links_from a [] = True"
| "tool_links_from a (m # ms) =
     (case role m of
        Assistant \<Rightarrow> content m = [] \<and> tool_calls m \<noteq> None \<and> tool_links_from (Some m) ms
      | Tool \<Rightarrow> (case a of None \<Rightarrow> False | Some am \<Rightarrow> answers_request am m) \<and> tool_links_from a ms
      | _ \<Rightarrow> tool_links_from None ms)"

definition tool_links :: "ChatMessage list \<Rightarrow> bool" where
  "tool_links ms = tool_links_from None ms"

definition seed :: "env \<Rightarrow> string \<Rightarrow> ChatMessage list" where
  "seed e userMessage = [message System (systemPrompt e), message User userMessage]"

text \<open>The content chunks a list of model chunks makes the agent emit.\<close>

definition content_chunks :: "ChatStreamChunk list \<Rightarrow> AgentStreamChunk list" where
  "content_chunks chunks = map Content_chunk (filter (\<lambda>t. t \<noteq> []) (map chunk_text chunks))"

subsection \<open>Invariants and decisions\<close>

text \<open>
  The histories of a run, in the order in which the model saw them and then the current
  one: each is a prefix of the next, so the history only grows by appending; each starts
  with the system prompt and the user question, and links its tool messages to the
  requests of the assistant message before them.
\<close>

definition history_ok :: "env \<Rightarrow> string \<Rightarrow> run_state \<Rightarrow> bool" where
  "history_ok e userMessage st =
     (let hs = histories (trace st) @ [messages st]
      in sorted_wrt prefix hs \<and> list_all (\<lambda>h. prefix (seed e userMessage) h \<and> tool_links h) hs)"

text \<open>
  What the \<^verbatim>\<open>for await\<close> of a round leaves, as a function of the chunks alone: \<open>None\<close>
  when the loop returns inside (a final chunk with another finish reason than
  \<^verbatim>\<open>tool_calls\<close>, or no tool calls seen so far), the tool calls last seen otherwise. A
  stream is decisive when it returns or leaves a non-empty list of calls.
\<close>

fun retained :: "ChatStreamChunk list \<Rightarrow> ToolCall list option \<Rightarrow> ToolCall list option option" where
  "retained [] toolCalls = Some toolCalls"
| "retained (chunk # rest) toolCalls =
     (let toolCalls1 = (case chunk_tool_calls chunk of None \<Rightarrow> toolCalls | Some tcs \<Rightarrow> Some tcs)
      in if isFinished chunk \<and> (finishReason chunk \<noteq> Some ''tool_calls'' \<or> toolCalls1 = None)
         then None
         else retained rest toolCalls1)"

definition decisive :: "ChatStreamChunk list \<Rightarrow> bool" where
  "decisive chunks =
     (case retained chunks None of
        None \<Rightarrow> True
      | Some None \<Rightarrow> False
      | Some (Some tcs) \<Rightarrow> tcs \<noteq> [])"

text \<open>
  The text a round returns with, as a function of the chunks alone: the texts up to the
  chunk at which the \<^verbatim>\<open>for await\<close> returns.
\<close>

fun answer_text :: "ChatStreamChunk list \<Rightarrow> ToolCall list option \<Rightarrow> string" where
  "answer_text [] toolCalls = []"
| "answer_text (chunk # rest) toolCalls =
     (let toolCalls1 = (case chunk_tool_calls chunk of None \<Rightarrow> toolCalls | Some tcs \<Rightarrow> Some tcs)
      in if isFinished chunk \<and> (finishReason chunk \<noteq> Some ''tool_calls'' \<or> toolCalls1 = None)
         then chunk_text chunk
         else chunk_text chunk @ answer_text rest toolCalls1)"

text \<open>The user-role messages of a history.\<close>

definition user_messages :: "ChatMessage list \<Rightarrow> ChatMessage list" where
  "user_messages ms = filter (\<lambda>m. role m = User) ms"

section \<open>The registered tools\<close>

subsection \<open>Dates\<close>

text \<open>
  The \<^verbatim>\<open>Date\<close> constructor with numeric fields, after ECMAScript: \<^verbatim>\<open>MakeDay\<close>,
  \<^verbatim>\<open>MakeTime\<close> and \<^verbatim>\<open>MakeDate\<close> on the local fields, a year from 0 to 99 read as
  1900 + year, then the conversion from local time to UTC and \<^verbatim>\<open>TimeClip\<close>: a time
  value beyond 8.64e15 ms makes the date invalid, and its \<^verbatim>\<open>getTime()\<close> is NaN. Time
  values are milliseconds since the epoch. \<open>tza\<close> is the host's offset of local time from
  UTC at a local time value; the offset of a time zone is less than a day, which its
  type says.
\<close>

typedef tz_offset = "{n :: int. \<bar>n\<bar> < 86400000}"
  morphisms offset_ms Abs_tz_offset
  by (rule exI [of _ 0]) simp

setup_lifting type_definition_tz_offset

lift_definition utc_offset :: tz_offset is 0
  by simp

definition InLeapYear :: "int \<Rightarrow> bool" where
  "InLeapYear y = (y mod 4 = 0 \<and> (y mod 100 \<noteq> 0 \<or> y mod 400 = 0))"

definition DayFromYear :: "int \<Rightarrow> int" where
  "DayFromYear y = 365 * (y - 1970) + (y - 1969) div 4 - (y - 1901) div 100 + (y - 1601) div 400"

definition DaysBeforeMonth :: "bool \<Rightarrow> int \<Rightarrow> int" where
  "DaysBeforeMonth leap mn =
     (let l = (if leap then 1 else 0) in
      if mn = 0 then 0 else if mn = 1 then 31 else if mn = 2 then 59 + l
      else if mn = 3 then 90 + l else if mn = 4 then 120 + l else if mn = 5 then 151 + l
      else if mn = 6 then 181 + l else if mn = 7 then 212 + l else if mn = 8 then 243 + l
      else if mn = 9 then 273 + l else if mn = 10 then 304 + l else 334 + l)"

definition MakeDay :: "int \<Rightarrow> int \<Rightarrow> int \<Rightarrow> int" where
  "MakeDay year month date =
     (let ym = year + month div 12; mn = month mod 12
      in DayFromYear ym + DaysBeforeMonth (InLeapYear ym) mn + date - 1)"

definition MakeTime :: "int \<Rightarrow> int \<Rightarrow> int \<Rightarrow> int \<Rightarrow> int" where
  "MakeTime hour minute sec ms = hour * 3600000 + minute * 60000 + sec * 1000 + ms"

definition MakeDate :: "int \<Rightarrow> int \<Rightarrow> int" where
  "MakeDate day time = day * 86400000 + time"

definition TimeClip :: "int \<Rightarrow> number" where
  "TimeClip t = (if \<bar>t\<bar> > 8640000000000000 then NaN else Number t)"

definition new_Date :: "(int \<Rightarrow> tz_offset) \<Rightarrow> int \<Rightarrow> int \<Rightarrow> int \<Rightarrow> int \<Rightarrow> int \<Rightarrow> int \<Rightarrow> number" where
  "new_Date tza year month date hours minutes seconds =
     (let yr = (if 0 \<le> year \<and> year \<le> 99 then 1900 + year else year);
          t = MakeDate (MakeDay yr month date) (MakeTime hours minutes seconds 0)
      in TimeClip (t - offset_ms (tza t)))"

text \<open>\<^verbatim>\<open>Math.floor(date.getTime() / 1000)\<close>, NaN for an invalid date.\<close>

definition epoch_seconds :: "number \<Rightarrow> number" where
  "epoch_seconds t = (case t of Number ms \<Rightarrow> Number (ms div 1000) | NaN \<Rightarrow> NaN)"

subsection \<open>The data store and the host\<close>

record stored_message =
  senderName :: string
  message_content :: string
  timestamp :: int

record message_page =
  page_total :: int
  page_messages :: "stored_message list"

record activity =
  messageCount :: int

record hourly_activity = activity +
  hour :: int

record weekday_activity = activity +
  weekday :: int

record daily_activity = activity +
  date :: string

text \<open>
  The functions of \<^verbatim>\<open>workerManager\<close> the executors call, and what they take from the
  host: the offset of local time and the two locale formatters of a time value, which
  may be NaN.
\<close>

record workerManager =
  searchMessages :: "string \<Rightarrow> string list \<Rightarrow> TimeFilter option \<Rightarrow> int \<Rightarrow> int \<Rightarrow> message_page"
  getRecentMessages :: "string \<Rightarrow> TimeFilter option \<Rightarrow> int \<Rightarrow> message_page"
  getHourlyActivity :: "string \<Rightarrow> TimeFilter option \<Rightarrow> hourly_activity list"
  getWeekdayActivity :: "string \<Rightarrow> TimeFilter option \<Rightarrow> weekday_activity list"
  getDailyActivity :: "string \<Rightarrow> TimeFilter option \<Rightarrow> daily_activity list"
  localTZA :: "int \<Rightarrow> tz_offset"
  toLocaleDateString :: "number \<Rightarrow> string"
  toLocaleString :: "number \<Rightarrow> string"

subsection \<open>\<^verbatim>\<open>searchMessagesExecutor\<close> and \<^verbatim>\<open>getRecentMessagesExecutor\<close>\<close>

record recent_params =
  limit :: "int option"
  year :: "int option"
  month :: "int option"

record search_params = recent_params +
  search_keywords :: "string list"

text \<open>A number is truthy unless it is absent or 0.\<close>

definition truthy :: "int option \<Rightarrow> bool" where
  "truthy v = (case v of None \<Rightarrow> False | Some n \<Rightarrow> n \<noteq> 0)"

text \<open>
  The block that builds \<^verbatim>\<open>effectiveTimeFilter\<close>, the same in both executors: the
  context's filter unless \<^verbatim>\<open>params.year\<close> is truthy; then the month when
  \<^verbatim>\<open>params.month\<close> is truthy, ending at day 0 of the following month, and the year
  otherwise.
\<close>

definition effectiveTimeFilter ::
  "(int \<Rightarrow> tz_offset) \<Rightarrow> 'a recent_params_scheme \<Rightarrow> TimeFilter option \<Rightarrow> TimeFilter option" where
  "effectiveTimeFilter tza params contextTimeFilter =
     (if truthy (year params) then
        (let y = the (year params);
             startDate = (if truthy (month params)
                          then new_Date tza y (the (month params) - 1) 1 0 0 0
                          else new_Date tza y 0 1 0 0 0);
             endDate = (if truthy (month params)
                        then new_Date tza y (the (month params)) 0 23 59 59
                        else new_Date tza y 11 31 23 59 59)
         in Some \<lparr>startTs = epoch_seconds startDate, endTs = epoch_seconds endDate\<rparr>)
      else contextTimeFilter)"

definition or_default :: "int option \<Rightarrow> int \<Rightarrow> int" where
  "or_default v d = (if truthy v then the v else d)"

text \<open>\<^verbatim>\<open>x * 1000\<close>, the time value of an epoch second.\<close>

definition milliseconds :: "number \<Rightarrow> number" where
  "milliseconds x = (case x of Number n \<Rightarrow> Number (n * 1000) | NaN \<Rightarrow> NaN)"

definition timeRange :: "workerManager \<Rightarrow> TimeFilter option \<Rightarrow> jsval" where
  "timeRange w f =
     (case f of
        Some tf \<Rightarrow> JObj [(''start'', JStr (toLocaleDateString w (milliseconds (startTs tf)))),
                        (''end'', JStr (toLocaleDateString w (milliseconds (endTs tf))))]
      | None \<Rightarrow> JStr (map char_of
          [0xE5, 0x85, 0xA8, 0xE9, 0x83, 0xA8, 0xE6, 0x97, 0xB6, 0xE9, 0x97, 0xB4 :: nat]))"

definition format_page :: "workerManager \<Rightarrow> TimeFilter option \<Rightarrow> message_page \<Rightarrow> jsval" where
  "format_page w f result =
     JObj [(''total'', JNum (page_total result)),
           (''returned'', JNum (int (length (page_messages result)))),
           (''timeRange'', timeRange w f),
           (''messages'', JArr (map (\<lambda>m. JObj [(''sender'', JStr (senderName m)),
                                                (''content'', JStr (message_content m)),
                                                (''time'', JStr (toLocaleString w (Number (timestamp m * 1000))))])
                                    (page_messages result)))]"

text \<open>The limit \<^verbatim>\<open>searchMessagesExecutor\<close> forwards: \<^verbatim>\<open>Math.min(params.limit || 200, 5000)\<close>.\<close>

definition search_limit :: "search_params \<Rightarrow> int" where
  "search_limit params = min (or_default (limit params) 200) 5000"

text \<open>The arguments of the call to \<^verbatim>\<open>workerManager.searchMessages\<close>.\<close>

definition search_request ::
  "workerManager \<Rightarrow> search_params \<Rightarrow> ToolContext \<Rightarrow> string \<times> string list \<times> TimeFilter option \<times> int \<times> int" where
  "search_request w params ctx =
     (sessionId ctx, search_keywords params,
      effectiveTimeFilter (localTZA w) params (timeFilter ctx), search_limit params, 0)"

definition searchMessagesExecutor :: "workerManager \<Rightarrow> search_params \<Rightarrow> ToolContext \<Rightarrow> jsval" where
  "searchMessagesExecutor w params ctx =
     (case search_request w params ctx of
        (sid, kws, f, lmt, ofs) \<Rightarrow> format_page w f (searchMessages w sid kws f lmt ofs))"

text \<open>The arguments of the call to \<^verbatim>\<open>workerManager.getRecentMessages\<close>.\<close>

definition recent_request ::
  "workerManager \<Rightarrow> recent_params \<Rightarrow> ToolContext \<Rightarrow> string \<times> TimeFilter option \<times> int" where
  "recent_request w params ctx =
     (sessionId ctx, effectiveTimeFilter (localTZA w) params (timeFilter ctx),
      or_default (limit params) 100)"

definition getRecentMessagesExecutor :: "workerManager \<Rightarrow> recent_params \<Rightarrow> ToolContext \<Rightarrow> jsval" where
  "getRecentMessagesExecutor w params ctx =
     (case recent_request w params ctx of
        (sid, f, lmt) \<Rightarrow> format_page w f (getRecentMessages w sid f lmt))"

subsection \<open>\<^verbatim>\<open>getTimeStatsExecutor\<close>\<close>

text \<open>
  \<^verbatim>\<open>params.type\<close>: one of the three strings the \<^verbatim>\<open>switch\<close> knows, or any other value;
  the arguments come from the model and are not checked. The \<^verbatim>\<open>switch\<close> has no
  default, so the function returns \<^verbatim>\<open>undefined\<close> for another value.
\<close>

datatype stats_type = Hourly | Weekday | Daily | Other_type

text \<open>\<^verbatim>\<open>Array.prototype.reduce\<close> without an initial value throws a TypeError on an empty array.\<close>

definition reduce_no_initial :: "('a \<Rightarrow> 'a \<Rightarrow> 'a) \<Rightarrow> 'a list \<Rightarrow> error + 'a" where
  "reduce_no_initial f xs = (case xs of [] \<Rightarrow> Inl TypeError | x # rest \<Rightarrow> Inr (foldl f x rest))"

definition peak_of :: "'a activity_scheme \<Rightarrow> 'a activity_scheme \<Rightarrow> 'a activity_scheme" where
  "peak_of mx cur = (if messageCount cur > messageCount mx then cur else mx)"

definition show_int :: "int \<Rightarrow> string" where
  "show_int i = (if i < 0 then ''-'' @ decimal (nat (- i)) else decimal (nat i))"

definition weekdayNames :: "string list" where
  "weekdayNames = map (map char_of)
     [[],
      [0xE5, 0x91, 0xA8, 0xE4, 0xB8, 0x80], [0xE5, 0x91, 0xA8, 0xE4, 0xBA, 0x8C],
      [0xE5, 0x91, 0xA8, 0xE4, 0xB8, 0x89], [0xE5, 0x91, 0xA8, 0xE5, 0x9B, 0x9B],
      [0xE5, 0x91, 0xA8, 0xE4, 0xBA, 0x94], [0xE5, 0x91, 0xA8, 0xE5, 0x85, 0xAD],
      [0xE5, 0x91, 0xA8, 0xE6, 0x97, 0xA5 :: nat]]"

definition weekday_name :: "int \<Rightarrow> jsval" where
  "weekday_name i =
     (if 0 \<le> i \<and> i < int (length weekdayNames) then JStr (weekdayNames ! nat i) else JUndefined)"

text \<open>\<^verbatim>\<open>Math.round(total / recent.length)\<close>: the nearest integer, a half rounded up; NaN for 0 / 0.\<close>

definition average_per_day :: "int \<Rightarrow> int \<Rightarrow> jsval" where
  "average_per_day tot n = (if n = 0 then JNaN else JNum ((2 * tot + n) div (2 * n)))"

definition getTimeStatsExecutor :: "workerManager \<Rightarrow> stats_type \<Rightarrow> ToolContext \<Rightarrow> error + jsval" where
  "getTimeStatsExecutor w type ctx =
     (case type of
        Hourly \<Rightarrow>
          (let result = getHourlyActivity w (sessionId ctx) (timeFilter ctx)
           in case reduce_no_initial peak_of result of
                Inl err \<Rightarrow> Inl err
              | Inr peak \<Rightarrow>
                  Inr (JObj [(''distribution'',
                               JArr (map (\<lambda>h. JObj [(''hour'', JStr (show_int (hour h) @ '':00'')),
                                                     (''count'', JNum (messageCount h))]) result)),
                             (''peakHour'', JStr (show_int (hour peak) @ '':00'')),
                             (''peakCount'', JNum (messageCount peak))]))
      | Weekday \<Rightarrow>
          (let result = getWeekdayActivity w (sessionId ctx) (timeFilter ctx)
           in case reduce_no_initial peak_of result of
                Inl err \<Rightarrow> Inl err
              | Inr peak \<Rightarrow>
                  Inr (JObj [(''distribution'',
                               JArr (map (\<lambda>d. JObj [(''weekday'', weekday_name (weekday d)),
                                                     (''count'', JNum (messageCount d))]) result)),
                             (''peakDay'', weekday_name (weekday peak)),
                             (''peakCount'', JNum (messageCount peak))]))
      | Daily \<Rightarrow>
          (let result = getDailyActivity w (sessionId ctx) (timeFilter ctx);
               recent = drop (length result - 30) result;
               tot = sum_list (map messageCount recent)
           in Inr (JObj [(''recentDays'', JNum (int (length recent))),
                         (''totalMessages'', JNum tot),
                         (''averagePerDay'', average_per_day tot (int (length recent))),
                         (''trend'', JArr (map (\<lambda>d. JObj [(''date'', JStr (date d)),
                                                          (''count'', JNum (messageCount d))]) recent))]))
      | Other_type \<Rightarrow> Inr JUndefined)"

subsection \<open>What the executors forward to the data store\<close>

definition search_timeFilter :: "workerManager \<Rightarrow> search_params \<Rightarrow> ToolContext \<Rightarrow> TimeFilter option" where
  "search_timeFilter w params ctx = (case search_request w params ctx of (sid, kws, f, n, ofs) \<Rightarrow> f)"

definition search_forwarded_limit :: "workerManager \<Rightarrow> search_params \<Rightarrow> ToolContext \<Rightarrow> int" where
  "search_forwarded_limit w params ctx = (case search_request w params ctx of (sid, kws, f, n, ofs) \<Rightarrow> n)"


section \<open>The calendar of the specification\<close>

text \<open>
  The instants the specification names, counted day by day: the days of the years
  since 1970 (counted backwards before 1970), the days of the months before the given
  one, the day of the month, then the time of day; \<open>local_instant\<close> is the epoch second
  of a local date and time under the host's offset.
\<close>

definition is_leap_year :: "int \<Rightarrow> bool" where
  "is_leap_year y = (4 dvd y \<and> (\<not> 100 dvd y \<or> 400 dvd y))"

definition days_in_year :: "int \<Rightarrow> int" where
  "days_in_year y = (if is_leap_year y then 366 else 365)"

definition days_in_month :: "int \<Rightarrow> int \<Rightarrow> int" where
  "days_in_month y m =
     (if m = 2 then (if is_leap_year y then 29 else 28)
      else if m = 4 \<or> m = 6 \<or> m = 9 \<or> m = 11 then 30 else 31)"

definition days_since_epoch :: "int \<Rightarrow> int \<Rightarrow> int \<Rightarrow> int" where
  "days_since_epoch y m d =
     sum_list (map days_in_year [1970..y - 1]) - sum_list (map days_in_year [y..1969]) +
     sum_list (map (days_in_month y) [1..m - 1]) + (d - 1)"

definition local_instant :: "(int \<Rightarrow> tz_offset) \<Rightarrow> int \<Rightarrow> int \<Rightarrow> int \<Rightarrow> int \<Rightarrow> int \<Rightarrow> int \<Rightarrow> int" where
  "local_instant tza y m d hh mm ss =
     (let t = (days_since_epoch y m d * 86400 + hh * 3600 + mm * 60 + ss) * 1000
      in (t - offset_ms (tza t)) div 1000)"

section \<open>Fixtures\<close>

text \<open>A data store with no data on a host in UTC, and two contexts.\<close>

definition utc_store :: workerManager where
  "utc_store =
     \<lparr>searchMessages = (\<lambda>sid kws f n ofs. \<lparr>page_total = 0, page_messages = []\<rparr>),
      getRecentMessages = (\<lambda>sid f n. \<lparr>page_total = 0, page_messages = []\<rparr>),
      getHourlyActivity = (\<lambda>sid f. []),
      getWeekdayActivity = (\<lambda>sid f. []),
      getDailyActivity = (\<lambda>sid f. []),
      localTZA = (\<lambda>t. utc_offset),
      toLocaleDateString = (\<lambda>t. case t of Number n \<Rightarrow> show_int n | NaN \<Rightarrow> ''Invalid Date''),
      toLocaleString = (\<lambda>t. case t of Number n \<Rightarrow> show_int n | NaN \<Rightarrow> ''Invalid Date'')\<rparr>"

definition no_filter_context :: ToolContext where
  "no_filter_context = \<lparr>sessionId = ''s1'', timeFilter = None\<rparr>"

definition filtered_context :: ToolContext where
  "filtered_context = \<lparr>sessionId = ''s1'', timeFilter = Some \<lparr>startTs = Number 100, endTs = Number 200\<rparr>\<rparr>"

text \<open>Model clients, configurations and a tool call for the examples.\<close>

definition stats_call :: ToolCall where
  "stats_call = \<lparr>call_id = ''call_1'', function_name = ''get_member_stats'', function_arguments = ''{}''\<rparr>"

definition tool_loop_env :: "string \<Rightarrow> env" where
  "tool_loop_env answer =
     \<lparr>systemPrompt = ''system'',
      getAllToolDefinitions = [],
      chat = (\<lambda>k ms opts. Inr \<lparr>response_content = answer, response_finishReason = ''tool_calls'',
                                 response_tool_calls = Some [stats_call]\<rparr>),
      chatStream = (\<lambda>k ms opts. ([\<lparr>chunk_content = Some answer, chunk_tool_calls = Some [stats_call],
                                      isFinished = True, finishReason = Some ''tool_calls''\<rparr>], None)),
      executeToolCalls = (\<lambda>k tcs ctx. map (\<lambda>tc. Failure ''no data'') tcs),
      JSON_parse = (\<lambda>s. if s = ''{}'' then Some (JObj []) else None),
      JSON_stringify = (\<lambda>v. ''null'')\<rparr>"

definition two_rounds :: AgentConfig where
  "two_rounds = \<lparr>maxToolRounds = Some 2, llmOptions = None\<rparr>"

definition idle_env :: env where
  "idle_env =
     \<lparr>systemPrompt = ''system'',
      getAllToolDefinitions = [],
      chat = (\<lambda>k ms opts. Inr \<lparr>response_content = ''ok'', response_finishReason = ''stop'',
                                 response_tool_calls = None\<rparr>),
      chatStream = (\<lambda>k ms opts. ([\<lparr>chunk_content = Some ''ok'', chunk_tool_calls = None,
                                      isFinished = True, finishReason = Some ''stop''\<rparr>], None)),
      executeToolCalls = (\<lambda>k tcs ctx. map (\<lambda>tc. Success JNull) tcs),
      JSON_parse = (\<lambda>s. if s = ''{}'' then Some (JObj []) else None),
      JSON_stringify = (\<lambda>v. ''null'')\<rparr>"

definition stalling_env :: env where
  "stalling_env =
     \<lparr>systemPrompt = ''system'',
      getAllToolDefinitions = [],
      chat = (\<lambda>k ms opts. Inr \<lparr>response_content = [], response_finishReason = ''tool_calls'',
                                 response_tool_calls = Some []\<rparr>),
      chatStream = (\<lambda>k ms opts. ([\<lparr>chunk_content = None, chunk_tool_calls = Some [],
                                      isFinished = True, finishReason = Some ''tool_calls''\<rparr>], None)),
      executeToolCalls = (\<lambda>k tcs ctx. map (\<lambda>tc. Success JNull) tcs),
      JSON_parse = (\<lambda>s. if s = ''{}'' then Some (JObj []) else None),
      JSON_stringify = (\<lambda>v. ''null'')\<rparr>"

definition unfinished_env :: env where
  "unfinished_env =
     \<lparr>systemPrompt = ''system'',
      getAllToolDefinitions = [],
      chat = (\<lambda>k ms opts. Inr \<lparr>response_content = ''ok'', response_finishReason = ''stop'',
                                 response_tool_calls = None\<rparr>),
      chatStream = (\<lambda>k ms opts. ([\<lparr>chunk_content = Some ''ok'', chunk_tool_calls = None,
                                      isFinished = False, finishReason = None\<rparr>], None)),
      executeToolCalls = (\<lambda>k tcs ctx. map (\<lambda>tc. Success JNull) tcs),
      JSON_parse = (\<lambda>s. if s = ''{}'' then Some (JObj []) else None),
      JSON_stringify = (\<lambda>v. ''null'')\<rparr>"

text \<open>The text \<^verbatim>\<open>{"keywords":["a"]}\<close> and the value it parses to.\<close>

definition keywords_json :: string where
  "keywords_json =
     ''{'' @ [CHR 0x22] @ ''keywords'' @ [CHR 0x22] @ '':['' @ [CHR 0x22] @ ''a'' @ [CHR 0x22] @ '']}''"

definition keywords_value :: jsval where
  "keywords_value = JObj [(''keywords'', JArr [JStr ''a''])]"

definition search_call :: ToolCall where
  "search_call =
     \<lparr>call_id = ''call_2'', function_name = ''search_messages'', function_arguments = keywords_json\<rparr>"

definition recent_call :: ToolCall where
  "recent_call = \<lparr>call_id = ''call_4'', function_name = ''get_recent_messages'', function_arguments = []\<rparr>"

definition broken_call :: ToolCall where
  "broken_call = \<lparr>call_id = ''call_3'', function_name = ''get_member_stats'', function_arguments = ''{''\<rparr>"

definition search_env :: env where
  "search_env =
     \<lparr>systemPrompt = ''system'',
      getAllToolDefinitions = [],
      chat = (\<lambda>k ms opts. Inr \<lparr>response_content = [], response_finishReason = ''tool_calls'',
                                 response_tool_calls = Some [search_call, broken_call, recent_call]\<rparr>),
      chatStream = (\<lambda>k ms opts. ([\<lparr>chunk_content = None,
                                      chunk_tool_calls = Some [search_call, broken_call, recent_call],
                                      isFinished = True, finishReason = Some ''tool_calls''\<rparr>], None)),
      executeToolCalls = (\<lambda>k tcs ctx. map (\<lambda>tc. if function_arguments tc = ''{'' then Failure ''bad arguments''
                                                  else Success (JNum 0)) tcs),
      JSON_parse = (\<lambda>s. if s = ''{}'' then Some (JObj [])
                        else if s = keywords_json then Some keywords_value else None),
      JSON_stringify = (\<lambda>v. ''0'')\<rparr>"

text \<open>
  A model that asks for three tools in every answer, and a dispatcher under which the
  first call succeeds, the second, \<^verbatim>\<open>get_time_stats\<close> without a type the executor
  knows, succeeds with the \<^verbatim>\<open>undefined\<close> that \<open>getTimeStatsExecutor\<close> returns for it, and
  the third fails.
\<close>

definition time_stats_call :: ToolCall where
  "time_stats_call = \<lparr>call_id = ''call_5'', function_name = ''get_time_stats'', function_arguments = ''{}''\<rparr>"

definition no_payload_env :: env where
  "no_payload_env =
     \<lparr>systemPrompt = ''system'',
      getAllToolDefinitions = [],
      chat = (\<lambda>k ms opts. Inr \<lparr>response_content = [], response_finishReason = ''tool_calls'',
                                 response_tool_calls = Some [search_call, time_stats_call, stats_call]\<rparr>),
      chatStream = (\<lambda>k ms opts. ([\<lparr>chunk_content = None,
                                      chunk_tool_calls = Some [search_call, time_stats_call, stats_call],
                                      isFinished = True, finishReason = Some ''tool_calls''\<rparr>], None)),
      executeToolCalls = (\<lambda>k tcs ctx. map (\<lambda>tc. if function_name tc = ''get_time_stats'' then Success JUndefined
                                                  else if function_name tc = ''search_messages'' then Success (JNum 0)
                                                  else Failure ''no data'') tcs),
      JSON_parse = (\<lambda>s. if s = ''{}'' then Some (JObj [])
                        else if s = keywords_json then Some keywords_value else None),
      JSON_stringify = (\<lambda>v. ''0'')\<rparr>"

section \<open>Properties of the agent\<close>

subsection \<open>Traces\<close>

lemma model_calls_append [simp]: "model_calls (xs @ ys) = model_calls xs + model_calls ys"
  by (simp add: model_calls_def)

lemma dispatches_append [simp]: "dispatches (xs @ ys) = dispatches xs + dispatches ys"
  by (simp add: dispatches_def)

lemma model_calls_simps [simp]:
  "model_calls [] = 0"
  "model_calls (Chat_call ms opts # tr) = Suc (model_calls tr)"
  "model_calls (ChatStream_call ms opts # tr) = Suc (model_calls tr)"
  "model_calls (Dispatch tcs # tr) = model_calls tr"
  "model_calls (Emit c # tr) = model_calls tr"
  by (simp_all add: model_calls_def)

lemma dispatches_simps [simp]:
  "dispatches [] = 0"
  "dispatches (Chat_call ms opts # tr) = dispatches tr"
  "dispatches (ChatStream_call ms opts # tr) = dispatches tr"
  "dispatches (Dispatch tcs # tr) = Suc (dispatches tr)"
  "dispatches (Emit c # tr) = dispatches tr"
  by (simp_all add: dispatches_def)

lemma histories_append [simp]: "histories (xs @ ys) = histories xs @ histories ys"
  by (induction xs rule: histories.induct) simp_all

lemma call_options_append [simp]: "call_options (xs @ ys) = call_options xs @ call_options ys"
  by (induction xs rule: call_options.induct) simp_all

lemma histories_emits [simp]: "histories (map Emit cs) = []"
  by (induction cs) simp_all

lemma call_options_emits [simp]: "call_options (map Emit cs) = []"
  by (induction cs) simp_all

lemma model_calls_emits [simp]: "model_calls (map Emit cs) = 0"
  by (induction cs) simp_all

lemma dispatches_emits [simp]: "dispatches (map Emit cs) = 0"
  by (induction cs) simp_all

lemma emits_comp [simp]:
  "histories (map (Emit \<circ> f) xs) = []"
  "call_options (map (Emit \<circ> f) xs) = []"
  "model_calls (map (Emit \<circ> f) xs) = 0"
  "dispatches (map (Emit \<circ> f) xs) = 0"
  by (induction xs) simp_all

text \<open>The effect of the loop over the results.\<close>

lemma resultLength_Inl:
  "resultLength e r = Inl err \<longleftrightarrow> err = TypeError \<and> r = Success JUndefined"
  by (cases r) (auto simp: resultLength_def stringify_def)

lemma add_tool_messages_Cons:
  "add_tool_messages e notify (tc # tcs) (result # results) st =
     (if result = Success JUndefined then Inl TypeError
      else add_tool_messages e notify tcs results
             (push_message (tool_message (tool_message_content e result) (call_id tc))
               ((if notify
                 then record_interaction (Emit (Tool_result (function_name tc) (tool_result_value result)))
                 else (\<lambda>s. s))
                (st\<lparr>toolsUsed := toolsUsed st @ [function_name tc]\<rparr>))))"
proof (cases "resultLength e result")
  case (Inl err)
  then show ?thesis using resultLength_Inl [of e result err] by (simp add: Let_def)
next
  case (Inr n)
  then have "result \<noteq> Success JUndefined" using resultLength_Inl [of e result TypeError] by auto
  with Inr show ?thesis by (simp add: Let_def)
qed

declare add_tool_messages.simps(3) [simp del]
declare add_tool_messages_Cons [simp]

lemma add_tool_messages_Inr:
  "add_tool_messages e notify tcs results st = Inr st' \<Longrightarrow>
     length tcs \<le> length results \<and>
     Success JUndefined \<notin> set (take (length tcs) results) \<and>
     messages st' = messages st @ tool_messages e tcs results \<and>
     toolsUsed st' = toolsUsed st @ map function_name tcs \<and>
     toolRounds st' = toolRounds st \<and>
     trace st' = trace st @ (if notify then map Emit (tool_result_chunks tcs results) else [])"
proof (induction tcs arbitrary: results st)
  case Nil
  then show ?case by (simp add: tool_messages_def tool_result_chunks_def)
next
  case (Cons tc tcs)
  show ?case
  proof (cases results)
    case Nil
    with Cons.prems show ?thesis by simp
  next
    case (Cons result rest)
    with Cons.prems have ok: "result \<noteq> Success JUndefined"
      by auto
    with Cons.prems Cons Cons.IH [of rest] show ?thesis
      by (auto simp: push_message_def record_interaction_def tool_messages_def tool_result_chunks_def)
  qed
qed

lemma add_tool_messages_total:
  "length tcs \<le> length results \<Longrightarrow> Success JUndefined \<notin> set (take (length tcs) results) \<Longrightarrow>
     \<exists>st'. add_tool_messages e notify tcs results st = Inr st'"
proof (induction tcs arbitrary: results st)
  case Nil
  show ?case by simp
next
  case (Cons tc tcs)
  then obtain result rest where r: "results = result # rest" by (cases results) auto
  with Cons.prems Cons.IH [of rest] show ?case
    by auto
qed

lemma add_tool_messages_short:
  "length results < length tcs \<Longrightarrow> add_tool_messages e notify tcs results st = Inl TypeError"
proof (induction tcs arbitrary: results st)
  case Nil
  then show ?case by simp
next
  case (Cons tc tcs)
  show ?case
  proof (cases results)
    case Nil
    then show ?thesis by simp
  next
    case (Cons result rest)
    with Cons.prems Cons.IH [of rest] show ?thesis
      by simp
  qed
qed

text \<open>
  The loop fails exactly when a result is missing or a success has no payload; a
  failure among the results never makes it fail.
\<close>

lemma add_tool_messages_fails:
  "add_tool_messages e notify tcs results st = Inl err \<longleftrightarrow>
     err = TypeError \<and>
     (length results < length tcs \<or> Success JUndefined \<in> set (take (length tcs) results))"
proof (induction tcs arbitrary: results st)
  case Nil
  show ?case by simp
next
  case (Cons tc tcs)
  show ?case
  proof (cases results)
    case Nil
    then show ?thesis by auto
  next
    case (Cons result rest)
    with Cons.IH [of rest] show ?thesis
      by auto
  qed
qed

lemma handleToolCalls_Inr:
  assumes "handleToolCalls e ag tcs notify st = Inr st'"
  defines "results \<equiv> executeToolCalls e (dispatches (trace st)) tcs (agent_context ag)"
  shows "length tcs \<le> length results"
    and "messages st' = messages st @ assistant_message tcs # tool_messages e tcs results"
    and "toolsUsed st' = toolsUsed st @ map function_name tcs"
    and "toolRounds st' = toolRounds st"
    and "trace st' = trace st @ Dispatch tcs #
           (if notify then map Emit (tool_result_chunks tcs results) else [])"
    and "Success JUndefined \<notin> set (take (length tcs) results)"
  using add_tool_messages_Inr [of e notify tcs results
      "record_interaction (Dispatch tcs) (push_message (assistant_message tcs) st)" st'] assms(1)
  by (simp_all add: handleToolCalls_def Let_def results_def push_message_def record_interaction_def)

lemma handleToolCalls_total:
  "length tcs \<le> length (executeToolCalls e (dispatches (trace st)) tcs (agent_context ag)) \<Longrightarrow>
   Success JUndefined \<notin>
     set (take (length tcs) (executeToolCalls e (dispatches (trace st)) tcs (agent_context ag))) \<Longrightarrow>
     \<exists>st'. handleToolCalls e ag tcs notify st = Inr st'"
  by (simp add: handleToolCalls_def Let_def push_message_def add_tool_messages_total)

lemma handleToolCalls_fails:
  "handleToolCalls e ag tcs notify st = Inl err \<longleftrightarrow>
     err = TypeError \<and>
     (length (executeToolCalls e (dispatches (trace st)) tcs (agent_context ag)) < length tcs \<or>
      Success JUndefined \<in>
        set (take (length tcs) (executeToolCalls e (dispatches (trace st)) tcs (agent_context ag))))"
  by (simp add: handleToolCalls_def Let_def push_message_def add_tool_messages_fails)

text \<open>What a dispatcher owes: a result for every call, and a payload in every success.\<close>

lemma answered_batch:
  assumes "\<And>k tcs c. length tcs \<le> length (executeToolCalls e k tcs c) \<and>
             Success JUndefined \<notin> set (executeToolCalls e k tcs c)"
  shows "length tcs \<le> length (executeToolCalls e k tcs c)"
    and "Success JUndefined \<notin> set (take n (executeToolCalls e k tcs c))"
  using assms [of tcs k c] by (auto dest: in_set_takeD)

text \<open>The rounds of \<open>execute\<close>.\<close>

lemma execute_round_Continue:
  assumes "execute_round e ag tls st = Inr (Continue st')"
  defines "opts \<equiv> with_tools (config_llmOptions ag) tls"
  obtains response tcs where
    "chat e (model_calls (trace st)) (messages st) opts = Inr response"
    "response_finishReason response = ''tool_calls''"
    "response_tool_calls response = Some tcs"
    "length tcs \<le> length (executeToolCalls e (dispatches (trace st)) tcs (agent_context ag))"
    "messages st' = messages st @ assistant_message tcs #
       tool_messages e tcs (executeToolCalls e (dispatches (trace st)) tcs (agent_context ag))"
    "toolsUsed st' = toolsUsed st @ map function_name tcs"
    "toolRounds st' = toolRounds st + 1"
    "trace st' = trace st @ [Chat_call (messages st) opts, Dispatch tcs]"
proof -
  define st1 where "st1 = record_interaction (Chat_call (messages st) opts) st"
  from assms(1) obtain response tcs st2 where
    r: "chat e (model_calls (trace st)) (messages st) opts = Inr response"
      "response_finishReason response = ''tool_calls''"
      "response_tool_calls response = Some tcs"
    and h: "handleToolCalls e ag tcs False st1 = Inr st2"
    and st': "st' = st2\<lparr>toolRounds := toolRounds st2 + 1\<rparr>"
    by (auto simp: execute_round_def Let_def opts_def st1_def
             split: sum.splits option.splits if_splits)
  have f: "messages st1 = messages st" "toolsUsed st1 = toolsUsed st" "toolRounds st1 = toolRounds st"
    "trace st1 = trace st @ [Chat_call (messages st) opts]"
    by (simp_all add: st1_def record_interaction_def)
  from handleToolCalls_Inr [OF h] f st' r show ?thesis
    by (intro that [of response tcs]) simp_all
qed

lemma execute_round_Return:
  assumes "execute_round e ag tls st = Inr (Return r st')"
  defines "opts \<equiv> with_tools (config_llmOptions ag) tls"
  obtains response where
    "chat e (model_calls (trace st)) (messages st) opts = Inr response"
    "response_finishReason response \<noteq> ''tool_calls'' \<or> response_tool_calls response = None"
    "r = result_of (response_content response) st'"
    "messages st' = messages st" "toolsUsed st' = toolsUsed st" "toolRounds st' = toolRounds st"
    "trace st' = trace st @ [Chat_call (messages st) opts]"
proof -
  define st1 where "st1 = record_interaction (Chat_call (messages st) opts) st"
  from assms(1) obtain response where
    c: "chat e (model_calls (trace st)) (messages st) opts = Inr response"
    by (cases "chat e (model_calls (trace st)) (messages st) opts")
       (simp_all add: execute_round_def Let_def opts_def)
  have "(response_finishReason response \<noteq> ''tool_calls'' \<or> response_tool_calls response = None) \<and>
        r = result_of (response_content response) st1 \<and> st' = st1"
  proof (cases "response_tool_calls response")
    case None
    with assms(1) c show ?thesis
      by (auto simp: execute_round_def Let_def opts_def st1_def)
  next
    case (Some tcs)
    show ?thesis
    proof (cases "response_finishReason response = ''tool_calls''")
      case True
      with assms(1) c Some show ?thesis
        by (cases "handleToolCalls e ag tcs False st1")
           (auto simp: execute_round_def Let_def opts_def st1_def)
    next
      case False
      with assms(1) c Some show ?thesis
        by (auto simp: execute_round_def Let_def opts_def st1_def)
    qed
  qed
  then show ?thesis
    using c by (intro that [of response]) (simp_all add: st1_def record_interaction_def)
qed

lemma forced_finish_Inr:
  assumes "forced_finish e ag st = Inr (r, st')"
  obtains response where
    "chat e (model_calls (trace st)) (messages st') (config_llmOptions ag) = Inr response"
    "r = result_of (response_content response) st'"
    "messages st' = messages st @ [message User forced_finish_prompt]"
    "toolsUsed st' = toolsUsed st" "toolRounds st' = toolRounds st"
    "trace st' = trace st @ [Chat_call (messages st') (config_llmOptions ag)]"
  using assms
  by (auto simp: forced_finish_def Let_def push_message_def record_interaction_def
           split: sum.splits)

text \<open>Where a run of \<open>execute\<close> ends.\<close>

lemma execute_loop_end:
  "execute_loop e ag tls st = Inr (r, st') \<Longrightarrow> P st \<Longrightarrow>
   (\<And>s s'. P s \<Longrightarrow> of_int (toolRounds s) < config_maxToolRounds ag \<Longrightarrow>
           execute_round e ag tls s = Inr (Continue s') \<Longrightarrow> P s') \<Longrightarrow>
   \<exists>s. P s \<and>
       (of_int (toolRounds s) < config_maxToolRounds ag \<and> execute_round e ag tls s = Inr (Return r st') \<or>
        \<not> of_int (toolRounds s) < config_maxToolRounds ag \<and> forced_finish e ag s = Inr (r, st'))"
proof (induction e ag tls st rule: execute_loop.induct)
  case (1 e ag tls st)
  show ?case
  proof (cases "of_int (toolRounds st) < config_maxToolRounds ag")
    case False
    with "1.prems"(1,2) show ?thesis
      by (auto simp: execute_loop.simps [of e ag tls st])
  next
    case True
    from "1.prems"(1) True obtain out where out: "execute_round e ag tls st = Inr out"
      by (cases "execute_round e ag tls st") (simp_all add: execute_loop.simps [of e ag tls st])
    show ?thesis
    proof (cases out)
      case (Return r0 s0)
      with "1.prems"(1,2) True out show ?thesis
        by (auto simp: execute_loop.simps [of e ag tls st])
    next
      case (Continue s1)
      with "1.prems"(1) True out have "execute_loop e ag tls s1 = Inr (r, st')"
        by (simp add: execute_loop.simps [of e ag tls st])
      moreover have "P s1" using "1.prems"(3) [OF "1.prems"(2) True] out Continue by simp
      ultimately show ?thesis using "1.IH" [OF True out Continue] "1.prems"(3) by blast
    qed
  qed
qed

lemma execute_loop_total:
  assumes "\<And>s. \<exists>out. execute_round e ag tls s = Inr out"
    and "\<And>s. \<exists>res. forced_finish e ag s = Inr res"
  shows "\<exists>res. execute_loop e ag tls st = Inr res"
  using assms
proof (induction e ag tls st rule: execute_loop.induct)
  case (1 e ag tls st)
  show ?case
  proof (cases "of_int (toolRounds st) < config_maxToolRounds ag")
    case False
    with "1.prems"(2) [of st] show ?thesis
      by (simp add: execute_loop.simps [of e ag tls st])
  next
    case True
    from "1.prems"(1) [of st] obtain out where out: "execute_round e ag tls st = Inr out" ..
    show ?thesis
    proof (cases out)
      case (Return r0 s0)
      with True out show ?thesis
        by (simp add: execute_loop.simps [of e ag tls st])
    next
      case (Continue s1)
      with True out "1.IH" [OF True out Continue] "1.prems" show ?thesis
        by (simp add: execute_loop.simps [of e ag tls st])
    qed
  qed
qed

text \<open>The rounds of \<open>executeStream\<close>.\<close>

lemma emit_content_fields [simp]:
  "messages (emit_content t st) = messages st"
  "toolsUsed (emit_content t st) = toolsUsed st"
  "toolRounds (emit_content t st) = toolRounds st"
  by (simp_all add: emit_content_def record_interaction_def)

lemma trace_emit_content:
  "trace (emit_content (chunk_text c) st) = trace st @ map Emit (content_chunks [c])"
  by (simp add: emit_content_def record_interaction_def content_chunks_def)

lemma content_chunks_Cons: "content_chunks (c # cs) = content_chunks [c] @ content_chunks cs"
  by (simp add: content_chunks_def)

lemma consume_chunks_Drained:
  "consume_chunks chunks acc tcs st = Drained acc' tcs' st' \<Longrightarrow>
     messages st' = messages st \<and> toolsUsed st' = toolsUsed st \<and> toolRounds st' = toolRounds st \<and>
     trace st' = trace st @ map Emit (content_chunks chunks) \<and>
     acc' = acc @ concat (map chunk_text chunks)"
proof (induction chunks arbitrary: acc tcs st)
  case Nil
  then show ?case by (simp add: content_chunks_def)
next
  case (Cons c cs)
  from Cons.prems have
    "consume_chunks cs (acc @ chunk_text c)
       (case chunk_tool_calls c of None \<Rightarrow> tcs | Some t \<Rightarrow> Some t)
       (emit_content (chunk_text c) st) = Drained acc' tcs' st'"
    by (simp add: Let_def split: if_splits)
  from Cons.IH [OF this] show ?case
    by (simp add: trace_emit_content content_chunks_Cons [of c cs])
qed

lemma consume_chunks_Returned_text:
  "consume_chunks chunks acc tcs st = Returned final st' \<Longrightarrow> final = acc @ answer_text chunks tcs"
proof (induction chunks arbitrary: acc tcs st)
  case Nil
  then show ?case by simp
next
  case (Cons ch chs)
  define tcs1 where "tcs1 = (case chunk_tool_calls ch of None \<Rightarrow> tcs | Some t \<Rightarrow> Some t)"
  show ?case
  proof (cases "isFinished ch \<and> (finishReason ch \<noteq> Some ''tool_calls'' \<or> tcs1 = None)")
    case True
    with Cons.prems show ?thesis by (auto simp: Let_def tcs1_def)
  next
    case False
    with Cons.prems have
      "consume_chunks chs (acc @ chunk_text ch) tcs1 (emit_content (chunk_text ch) st) = Returned final st'"
      by (auto simp: Let_def tcs1_def)
    from Cons.IH [OF this] False show ?thesis by (auto simp: Let_def tcs1_def)
  qed
qed

lemma consume_chunks_Returned:
  "consume_chunks chunks acc tcs st = Returned txt st' \<Longrightarrow>
     messages st' = messages st \<and> toolsUsed st' = toolsUsed st \<and> toolRounds st' = toolRounds st \<and>
     (\<exists>cs. trace st' = trace st @ map Emit cs)"
proof (induction chunks arbitrary: acc tcs st)
  case Nil
  then show ?case by simp
next
  case (Cons ch chs)
  define tcs1 where "tcs1 = (case chunk_tool_calls ch of None \<Rightarrow> tcs | Some t \<Rightarrow> Some t)"
  define st1 where "st1 = emit_content (chunk_text ch) st"
  have f1: "messages st1 = messages st" "toolsUsed st1 = toolsUsed st" "toolRounds st1 = toolRounds st"
    "trace st1 = trace st @ map Emit (content_chunks [ch])"
    by (simp_all add: st1_def trace_emit_content)
  show ?case
  proof (cases "isFinished ch \<and> (finishReason ch \<noteq> Some ''tool_calls'' \<or> tcs1 = None)")
    case True
    with Cons.prems have "st' = record_interaction (Emit Done_chunk) st1"
      by (auto simp: Let_def tcs1_def st1_def)
    then have "messages st' = messages st \<and> toolsUsed st' = toolsUsed st \<and> toolRounds st' = toolRounds st \<and>
      trace st' = trace st @ map Emit (content_chunks [ch] @ [Done_chunk])"
      using f1 by (simp add: record_interaction_def)
    then show ?thesis by blast
  next
    case False
    with Cons.prems have "consume_chunks chs (acc @ chunk_text ch) tcs1 st1 = Returned txt st'"
      by (auto simp: Let_def tcs1_def st1_def)
    from Cons.IH [OF this] obtain cs where
      "messages st' = messages st1" "toolsUsed st' = toolsUsed st1" "toolRounds st' = toolRounds st1"
      "trace st' = trace st1 @ map Emit cs" by blast
    with f1 have "messages st' = messages st \<and> toolsUsed st' = toolsUsed st \<and> toolRounds st' = toolRounds st \<and>
      trace st' = trace st @ map Emit (content_chunks [ch] @ cs)" by simp
    then show ?thesis by blast
  qed
qed

lemma announce_tools_fields:
  "messages (announce_tools e ag tcs st) = messages st \<and>
   toolsUsed (announce_tools e ag tcs st) = toolsUsed st \<and>
   toolRounds (announce_tools e ag tcs st) = toolRounds st \<and>
   trace (announce_tools e ag tcs st) = trace st @ map Emit (map (tool_start_chunk e ag) tcs)"
  by (induction tcs arbitrary: st) (simp_all add: record_interaction_def)

lemma finish_chunks_fields:
  "messages (snd (finish_chunks chunks acc st)) = messages st \<and>
   toolsUsed (snd (finish_chunks chunks acc st)) = toolsUsed st \<and>
   toolRounds (snd (finish_chunks chunks acc st)) = toolRounds st \<and>
   (\<exists>cs. trace (snd (finish_chunks chunks acc st)) = trace st @ map Emit cs) \<and>
   fst (finish_chunks chunks acc st) = acc @ concat (map chunk_text chunks)"
proof (induction chunks arbitrary: acc st)
  case Nil
  show ?case by simp
next
  case (Cons ch chs)
  define st2 where "st2 = (if isFinished ch then record_interaction (Emit Done_chunk)
      (emit_content (chunk_text ch) st) else emit_content (chunk_text ch) st)"
  have f: "messages st2 = messages st" "toolsUsed st2 = toolsUsed st" "toolRounds st2 = toolRounds st"
    "trace st2 = trace st @ map Emit (content_chunks [ch] @ (if isFinished ch then [Done_chunk] else []))"
    by (simp_all add: st2_def record_interaction_def trace_emit_content)
  from Cons.IH [of "acc @ chunk_text ch" st2] obtain cs where
    "messages (snd (finish_chunks chs (acc @ chunk_text ch) st2)) = messages st2"
    "toolsUsed (snd (finish_chunks chs (acc @ chunk_text ch) st2)) = toolsUsed st2"
    "toolRounds (snd (finish_chunks chs (acc @ chunk_text ch) st2)) = toolRounds st2"
    "trace (snd (finish_chunks chs (acc @ chunk_text ch) st2)) = trace st2 @ map Emit cs"
    "fst (finish_chunks chs (acc @ chunk_text ch) st2) = (acc @ chunk_text ch) @ concat (map chunk_text chs)"
    by blast
  moreover have "finish_chunks (ch # chs) acc st = finish_chunks chs (acc @ chunk_text ch) st2"
    by (simp add: Let_def st2_def)
  ultimately have "messages (snd (finish_chunks (ch # chs) acc st)) = messages st \<and>
   toolsUsed (snd (finish_chunks (ch # chs) acc st)) = toolsUsed st \<and>
   toolRounds (snd (finish_chunks (ch # chs) acc st)) = toolRounds st \<and>
   trace (snd (finish_chunks (ch # chs) acc st)) = trace st @
      map Emit ((content_chunks [ch] @ (if isFinished ch then [Done_chunk] else [])) @ cs) \<and>
   fst (finish_chunks (ch # chs) acc st) = acc @ concat (map chunk_text (ch # chs))"
    using f by simp
  then show ?case by blast
qed

lemma stream_round_Return:
  assumes "stream_round e ag tls st = Inr (Return r st')"
  defines "opts \<equiv> with_tools (config_llmOptions ag) tls"
  obtains cs where
    "r = result_of (answer_text (fst (chatStream e (model_calls (trace st)) (messages st) opts)) None) st'"
    "messages st' = messages st" "toolsUsed st' = toolsUsed st" "toolRounds st' = toolRounds st"
    "trace st' = trace st @ ChatStream_call (messages st) opts # map Emit cs"
proof -
  define answer where "answer = chatStream e (model_calls (trace st)) (messages st) opts"
  define st1 where "st1 = record_interaction (ChatStream_call (messages st) opts) st"
  have f1: "messages st1 = messages st" "toolsUsed st1 = toolsUsed st" "toolRounds st1 = toolRounds st"
    "trace st1 = trace st @ [ChatStream_call (messages st) opts]"
    by (simp_all add: st1_def record_interaction_def)
  show ?thesis
  proof (cases "consume_chunks (fst answer) [] None st1")
    case (Returned final s2)
    with assms(1) have eq: "r = result_of final s2" "st' = s2"
      by (auto simp: stream_round_def Let_def opts_def answer_def st1_def)
    from consume_chunks_Returned [OF Returned] obtain cs where
      "messages s2 = messages st1" "toolsUsed s2 = toolsUsed st1" "toolRounds s2 = toolRounds st1"
      "trace s2 = trace st1 @ map Emit cs" by blast
    moreover have "final = answer_text (fst answer) None"
      using consume_chunks_Returned_text [OF Returned] by simp
    ultimately show ?thesis using eq f1 by (intro that [of cs]) (simp_all add: answer_def)
  next
    case (Drained acc tcs s2)
    with assms(1) have False
      by (auto simp: stream_round_def Let_def opts_def answer_def st1_def
               split: option.splits if_splits sum.splits)
    then show ?thesis ..
  qed
qed

text \<open>A round that goes on either dispatched a non-empty list of calls or changed nothing but the trace.\<close>

lemma stream_round_Continue:
  assumes "stream_round e ag tls st = Inr (Continue st')"
  defines "opts \<equiv> with_tools (config_llmOptions ag) tls"
  defines "chunks \<equiv> fst (chatStream e (model_calls (trace st)) (messages st) opts)"
  obtains (stalled)
    "messages st' = messages st" "toolsUsed st' = toolsUsed st" "toolRounds st' = toolRounds st"
    "trace st' = trace st @ ChatStream_call (messages st) opts # map Emit (content_chunks chunks)"
  | (dispatched) tcs where
    "tcs \<noteq> []"
    "length tcs \<le> length (executeToolCalls e (dispatches (trace st)) tcs (agent_context ag))"
    "messages st' = messages st @ assistant_message tcs #
       tool_messages e tcs (executeToolCalls e (dispatches (trace st)) tcs (agent_context ag))"
    "toolsUsed st' = toolsUsed st @ map function_name tcs"
    "toolRounds st' = toolRounds st + 1"
    "trace st' = trace st @ ChatStream_call (messages st) opts #
       map Emit (content_chunks chunks) @ map Emit (map (tool_start_chunk e ag) tcs) @
       Dispatch tcs #
       map Emit (tool_result_chunks tcs (executeToolCalls e (dispatches (trace st)) tcs (agent_context ag)))"
proof -
  define answer where "answer = chatStream e (model_calls (trace st)) (messages st) opts"
  define st1 where "st1 = record_interaction (ChatStream_call (messages st) opts) st"
  have f1: "messages st1 = messages st" "toolsUsed st1 = toolsUsed st" "toolRounds st1 = toolRounds st"
    "trace st1 = trace st @ [ChatStream_call (messages st) opts]"
    by (simp_all add: st1_def record_interaction_def)
  have ch: "chunks = fst answer" by (simp add: chunks_def answer_def)
  show ?thesis
  proof (cases "consume_chunks (fst answer) [] None st1")
    case (Returned final s2)
    with assms(1) have False
      by (auto simp: stream_round_def Let_def opts_def answer_def st1_def)
    then show ?thesis ..
  next
    case (Drained acc otcs s2)
    from consume_chunks_Drained [OF Drained] f1 ch have f2:
      "messages s2 = messages st" "toolsUsed s2 = toolsUsed st" "toolRounds s2 = toolRounds st"
      "trace s2 = trace st @ ChatStream_call (messages st) opts # map Emit (content_chunks chunks)"
      by simp_all
    from assms(1) Drained have noerr: "snd answer = None"
      by (cases "snd answer") (auto simp: stream_round_def Let_def opts_def answer_def st1_def)
    show ?thesis
    proof (cases "otcs = None \<or> otcs = Some []")
      case True
      with assms(1) Drained noerr have "st' = s2"
        by (auto simp: stream_round_def Let_def opts_def answer_def st1_def)
      with f2 show ?thesis by (intro stalled) simp_all
    next
      case False
      then obtain tcs where tcs: "otcs = Some tcs" "tcs \<noteq> []" by auto
      define s3 where "s3 = announce_tools e ag tcs s2"
      have f3: "messages s3 = messages st" "toolsUsed s3 = toolsUsed st" "toolRounds s3 = toolRounds st"
        "trace s3 = trace st @ ChatStream_call (messages st) opts # map Emit (content_chunks chunks) @
           map Emit (map (tool_start_chunk e ag) tcs)"
        using announce_tools_fields [of e ag tcs s2] f2 by (simp_all add: s3_def)
      from assms(1) Drained noerr tcs obtain s4 where
        h: "handleToolCalls e ag tcs True s3 = Inr s4" and st': "st' = s4\<lparr>toolRounds := toolRounds s4 + 1\<rparr>"
        by (cases "handleToolCalls e ag tcs True s3")
           (auto simp: stream_round_def Let_def opts_def answer_def st1_def s3_def)
      have d: "dispatches (trace s3) = dispatches (trace st)"
        by (simp add: f3)
      from handleToolCalls_Inr [OF h] f3 st' tcs d show ?thesis
        by (intro dispatched [of tcs]) simp_all
    qed
  qed
qed

lemma forced_finish_stream_Inr:
  assumes "forced_finish_stream e ag st = Inr (r, st')"
  obtains cs where
    "snd (chatStream e (model_calls (trace st)) (messages st') (config_llmOptions ag)) = None"
    "result_content r = concat (map chunk_text
        (fst (chatStream e (model_calls (trace st)) (messages st') (config_llmOptions ag))))"
    "result_toolsUsed r = toolsUsed st'" "result_toolRounds r = toolRounds st'"
    "messages st' = messages st @ [message User forced_finish_prompt]"
    "toolsUsed st' = toolsUsed st" "toolRounds st' = toolRounds st"
    "trace st' = trace st @ ChatStream_call (messages st') (config_llmOptions ag) # map Emit cs"
proof -
  define st1 where "st1 = push_message (message User forced_finish_prompt) st"
  define answer where "answer = chatStream e (model_calls (trace st1)) (messages st1) (config_llmOptions ag)"
  define st2 where "st2 = record_interaction (ChatStream_call (messages st1) (config_llmOptions ag)) st1"
  have f2: "messages st2 = messages st @ [message User forced_finish_prompt]" "toolsUsed st2 = toolsUsed st"
    "toolRounds st2 = toolRounds st" "messages st1 = messages st2" "trace st1 = trace st"
    "trace st2 = trace st @ [ChatStream_call (messages st2) (config_llmOptions ag)]"
    by (simp_all add: st1_def st2_def push_message_def record_interaction_def)
  from assms have noerr: "snd answer = None"
    by (cases "snd answer") (auto simp: forced_finish_stream_def Let_def answer_def st1_def)
  with assms have eq: "st' = snd (finish_chunks (fst answer) [] st2)"
    "r = result_of (fst (finish_chunks (fst answer) [] st2)) st'"
    by (auto simp: forced_finish_stream_def Let_def answer_def st1_def st2_def)
  from finish_chunks_fields [of "fst answer" "[]" st2] eq obtain cs where
    f: "messages st' = messages st2" "toolsUsed st' = toolsUsed st2" "toolRounds st' = toolRounds st2"
    "trace st' = trace st2 @ map Emit cs"
    "r = result_of (concat (map chunk_text (fst answer))) st'"
    by auto
  have a: "answer = chatStream e (model_calls (trace st)) (messages st') (config_llmOptions ag)"
    using f2 f by (simp add: answer_def)
  show ?thesis
    using f f2 noerr a by (intro that [of cs]) (simp_all add: result_of_def)
qed

lemma executeStream_loop_end:
  "executeStream_loop n e ag tls st = Some (Inr (r, st')) \<Longrightarrow> P st \<Longrightarrow>
   (\<And>s s'. P s \<Longrightarrow> of_int (toolRounds s) < config_maxToolRounds ag \<Longrightarrow>
           stream_round e ag tls s = Inr (Continue s') \<Longrightarrow> P s') \<Longrightarrow>
   \<exists>s. P s \<and>
       (of_int (toolRounds s) < config_maxToolRounds ag \<and> stream_round e ag tls s = Inr (Return r st') \<or>
        \<not> of_int (toolRounds s) < config_maxToolRounds ag \<and> forced_finish_stream e ag s = Inr (r, st'))"
proof (induction n arbitrary: st)
  case 0
  then show ?case by (auto split: if_splits)
next
  case (Suc n)
  show ?case
  proof (cases "of_int (toolRounds st) < config_maxToolRounds ag")
    case False
    with Suc.prems(1,2) show ?thesis by auto
  next
    case True
    from Suc.prems(1) True obtain out where out: "stream_round e ag tls st = Inr out"
      by (cases "stream_round e ag tls st") simp_all
    show ?thesis
    proof (cases out)
      case (Return r0 s0)
      with Suc.prems(1,2) True out show ?thesis by auto
    next
      case (Continue s1)
      with Suc.prems(1) True out have "executeStream_loop n e ag tls s1 = Some (Inr (r, st'))"
        by simp
      moreover have "P s1" using Suc.prems(3) [OF Suc.prems(2) True] out Continue by simp
      ultimately show ?thesis using Suc.IH Suc.prems(3) by blast
    qed
  qed
qed

lemmas run_defs = execute_def executeStream_def execute_loop.simps execute_round_def stream_round_def
  forced_finish_def forced_finish_stream_def handleToolCalls_def init_state_def new_Agent_def
  push_message_def record_interaction_def result_of_def with_tools_def Let_def
  emit_content_def chunk_text_def tool_start_chunk_def tool_start_params_def
  message_def assistant_message_def tool_message_def tool_message_content_def tool_result_value_def
  stringify_def default_llmOptions_def

text \<open>
  The counter of a returned result: it starts at 0 and goes up by one only while it is
  below the maximum, so it ends at most at the least integer not below the maximum.
\<close>

lemma of_int_less_ceiling: "of_int t < (m :: rat) \<Longrightarrow> t + 1 \<le> \<lceil>m\<rceil>"
  by (simp add: less_ceiling_iff [symmetric])

lemma execute_toolRounds:
  assumes "execute e ag q = Inr (r, st)"
  shows "0 \<le> result_toolRounds r \<and> result_toolRounds r \<le> max 0 \<lceil>config_maxToolRounds ag\<rceil>"
proof -
  let ?P = "\<lambda>s. 0 \<le> toolRounds s \<and> toolRounds s \<le> max 0 \<lceil>config_maxToolRounds ag\<rceil>"
  have "\<exists>s. ?P s \<and>
       (of_int (toolRounds s) < config_maxToolRounds ag \<and>
          execute_round e ag (getAllToolDefinitions e) s = Inr (Return r st) \<or>
        \<not> of_int (toolRounds s) < config_maxToolRounds ag \<and> forced_finish e ag s = Inr (r, st))"
  proof (rule execute_loop_end [where P = ?P])
    show "execute_loop e ag (getAllToolDefinitions e) (init_state e q) = Inr (r, st)"
      using assms by (simp add: execute_def)
    show "?P (init_state e q)" by (simp add: init_state_def)
  next
    fix s s'
    assume p: "?P s" "of_int (toolRounds s) < config_maxToolRounds ag"
      and c: "execute_round e ag (getAllToolDefinitions e) s = Inr (Continue s')"
    show "?P s'" using p(1) of_int_less_ceiling [OF p(2)] execute_round_toolRounds [OF c] by simp
  qed
  then obtain s where P: "?P s" and
    d: "execute_round e ag (getAllToolDefinitions e) s = Inr (Return r st) \<or> forced_finish e ag s = Inr (r, st)"
    by blast
  from d show ?thesis
  proof
    assume "execute_round e ag (getAllToolDefinitions e) s = Inr (Return r st)"
    then show ?thesis using P by (elim execute_round_Return) (simp add: result_of_def)
  next
    assume "forced_finish e ag s = Inr (r, st)"
    then show ?thesis using P by (elim forced_finish_Inr) (simp add: result_of_def)
  qed
qed

lemma stream_round_toolRounds:
  "stream_round e ag tls s = Inr (Continue s') \<Longrightarrow>
     toolRounds s' = toolRounds s \<or> toolRounds s' = toolRounds s + 1"
  by (erule stream_round_Continue) simp_all

lemma executeStream_toolRounds:
  assumes "executeStream n e ag q = Some (Inr (r, st))"
  shows "0 \<le> result_toolRounds r \<and> result_toolRounds r \<le> max 0 \<lceil>config_maxToolRounds ag\<rceil>"
proof -
  let ?P = "\<lambda>s. 0 \<le> toolRounds s \<and> toolRounds s \<le> max 0 \<lceil>config_maxToolRounds ag\<rceil>"
  have "\<exists>s. ?P s \<and>
       (of_int (toolRounds s) < config_maxToolRounds ag \<and>
          stream_round e ag (getAllToolDefinitions e) s = Inr (Return r st) \<or>
        \<not> of_int (toolRounds s) < config_maxToolRounds ag \<and> forced_finish_stream e ag s = Inr (r, st))"
  proof (rule executeStream_loop_end [where P = ?P])
    show "executeStream_loop n e ag (getAllToolDefinitions e) (init_state e q) = Some (Inr (r, st))"
      using assms by (simp add: executeStream_def)
    show "?P (init_state e q)" by (simp add: init_state_def)
  next
    fix s s'
    assume p: "?P s" "of_int (toolRounds s) < config_maxToolRounds ag"
      and c: "stream_round e ag (getAllToolDefinitions e) s = Inr (Continue s')"
    show "?P s'" using p(1) of_int_less_ceiling [OF p(2)] stream_round_toolRounds [OF c] by auto
  qed
  then obtain s where P: "?P s" and
    d: "stream_round e ag (getAllToolDefinitions e) s = Inr (Return r st) \<or>
     forced_finish_stream e ag s = Inr (r, st)"
    by blast
  from d show ?thesis
  proof
    assume "stream_round e ag (getAllToolDefinitions e) s = Inr (Return r st)"
    then show ?thesis using P by (elim stream_round_Return) (simp add: result_of_def)
  next
    assume "forced_finish_stream e ag s = Inr (r, st)"
    then show ?thesis using P by (elim forced_finish_stream_Inr) simp
  qed
qed

subsection \<open>The bound on the rounds\<close>

text \<open>
  C1. The \<^verbatim>\<open>toolRounds\<close> of a result that \<^verbatim>\<open>execute\<close> or \<^verbatim>\<open>executeStream\<close> returns
  is at most the configured maximum, when that maximum is a number of rounds: a natural
  number \<open>m\<close>. The maximum of an agent is the configured one, and 5 when none is
  configured. For any maximum, a number of rounds or not, \<^verbatim>\<open>toolRounds\<close> lies between 0
  and the least integer that is not below the maximum and not below 0.
\<close>

theorem toolRounds_bounded:
  "(config_maxToolRounds ag = of_nat m \<longrightarrow>
      (execute e ag q = Inr (r, st) \<longrightarrow>
         0 \<le> result_toolRounds r \<and> result_toolRounds r \<le> int m) \<and>
      (executeStream n e ag q = Some (Inr (r', st')) \<longrightarrow>
         0 \<le> result_toolRounds r' \<and> result_toolRounds r' \<le> int m)) \<and>
   (execute e ag q = Inr (r, st) \<longrightarrow>
      0 \<le> result_toolRounds r \<and> result_toolRounds r \<le> max 0 \<lceil>config_maxToolRounds ag\<rceil>) \<and>
   (executeStream n e ag q = Some (Inr (r', st')) \<longrightarrow>
      0 \<le> result_toolRounds r' \<and> result_toolRounds r' \<le> max 0 \<lceil>config_maxToolRounds ag\<rceil>) \<and>
   config_maxToolRounds (new_Agent ctx \<lparr>maxToolRounds = None, llmOptions = lo\<rparr>) = of_nat 5 \<and>
   config_maxToolRounds (new_Agent ctx \<lparr>maxToolRounds = Some (of_nat m), llmOptions = lo\<rparr>) = of_nat m"
proof -
  have "max 0 \<lceil>(of_nat m :: rat)\<rceil> = int m"
    by simp
  then show ?thesis
    using execute_toolRounds [of e ag q r st] executeStream_toolRounds [of n e ag q r' st']
    by (auto simp: new_Agent_def)
qed

text \<open>Two rounds under a maximum of 2, in both modes.\<close>

theorem toolRounds_bounded_witness:
  "\<exists>r st r' st'.
     config_maxToolRounds (new_Agent no_filter_context two_rounds) = of_nat 2 \<and>
     execute (tool_loop_env ''ok'') (new_Agent no_filter_context two_rounds) ''hi'' = Inr (r, st) \<and>
     executeStream 3 (tool_loop_env ''ok'') (new_Agent no_filter_context two_rounds) ''hi'' = Some (Inr (r', st')) \<and>
     result_toolRounds r = 2 \<and> result_toolRounds r' = 2 \<and>
     result_toolRounds r \<le> int 2 \<and> result_toolRounds r' \<le> int 2"
proof -
  have m: "config_maxToolRounds (new_Agent no_filter_context two_rounds) = of_nat 2"
    by (simp add: new_Agent_def two_rounds_def)
  have "\<exists>r st. execute (tool_loop_env ''ok'') (new_Agent no_filter_context two_rounds) ''hi'' = Inr (r, st) \<and>
      result_toolRounds r = 2"
    by (simp add: run_defs tool_loop_env_def two_rounds_def no_filter_context_def stats_call_def)
  then obtain r st where
    a: "execute (tool_loop_env ''ok'') (new_Agent no_filter_context two_rounds) ''hi'' = Inr (r, st)"
      "result_toolRounds r = 2" by blast
  have "\<exists>r' st'. executeStream 3 (tool_loop_env ''ok'') (new_Agent no_filter_context two_rounds) ''hi'' =
      Some (Inr (r', st')) \<and> result_toolRounds r' = 2"
    by (simp add: run_defs tool_loop_env_def two_rounds_def no_filter_context_def stats_call_def
          numeral_3_eq_3)
  then obtain r' st' where
    b: "executeStream 3 (tool_loop_env ''ok'') (new_Agent no_filter_context two_rounds) ''hi'' =
          Some (Inr (r', st'))" "result_toolRounds r' = 2" by blast
  from toolRounds_bounded [of "new_Agent no_filter_context two_rounds" 2 "tool_loop_env ''ok''" "''hi''"
      r st 3 r' st'] m a b
  show ?thesis by blast
qed

text \<open>
  The maximum is not checked: under a maximum of 5/2 a run does 3 rounds, and under a
  maximum of -1 it does none.
\<close>

lemma toolRounds_unchecked_maximum:
  "(\<exists>r st. execute (tool_loop_env ''ok'')
              (new_Agent no_filter_context \<lparr>maxToolRounds = Some (5 / 2), llmOptions = None\<rparr>) ''hi'' =
            Inr (r, st) \<and> result_toolRounds r = 3) \<and>
   (\<exists>r st. execute (tool_loop_env ''ok'')
              (new_Agent no_filter_context \<lparr>maxToolRounds = Some (- 1), llmOptions = None\<rparr>) ''hi'' =
            Inr (r, st) \<and> result_toolRounds r = 0)"
  by (simp add: run_defs tool_loop_env_def no_filter_context_def stats_call_def)

lemma stalling_round:
  "stream_round stalling_env ag tls st =
     Inr (Continue (record_interaction (ChatStream_call (messages st) (with_tools (config_llmOptions ag) tls)) st))"
  by (simp add: stream_round_def stalling_env_def Let_def emit_content_def chunk_text_def)

lemma unfinished_round:
  "stream_round unfinished_env ag tls st =
     Inr (Continue (record_interaction (Emit (Content_chunk ''ok''))
       (record_interaction (ChatStream_call (messages st) (with_tools (config_llmOptions ag) tls)) st)))"
  by (simp add: stream_round_def unfinished_env_def Let_def emit_content_def chunk_text_def)

lemma stalling_loop:
  "of_int (toolRounds st) < config_maxToolRounds ag \<Longrightarrow> executeStream_loop n stalling_env ag tls st = None"
  by (induction n arbitrary: st) (simp_all add: stalling_round record_interaction_def)

lemma unfinished_loop:
  "of_int (toolRounds st) < config_maxToolRounds ag \<Longrightarrow> executeStream_loop n unfinished_env ag tls st = None"
  by (induction n arbitrary: st) (simp_all add: unfinished_round record_interaction_def)

subsection \<open>A stream that never ends the loop\<close>

text \<open>
  C2. \<^verbatim>\<open>executeStream\<close> does not return, whatever the number of iterations allowed,
  when every streamed answer ends with an empty tool-call list and the finish reason
  \<^verbatim>\<open>tool_calls\<close>, or carries no terminal marker: such a round calls the model once and
  leaves \<^verbatim>\<open>toolRounds\<close> and the history as they were, so the maximum of 5 rounds is
  never reached and the number of model calls has no bound.
\<close>

theorem executeStream_never_returns:
  "executeStream n stalling_env (new_Agent ctx empty_config) q = None \<and>
   executeStream n unfinished_env (new_Agent ctx empty_config) q = None \<and>
   stream_round stalling_env ag tls st =
     Inr (Continue (st\<lparr>trace := trace st @
       [ChatStream_call (messages st) (with_tools (config_llmOptions ag) tls)]\<rparr>))"
  by (simp add: executeStream_def stalling_loop unfinished_loop init_state_def new_Agent_def
        empty_config_def stalling_round record_interaction_def)

text \<open>
  \<^verbatim>\<open>execute\<close> is a total function; a run that returns has called the model at most once
  more than the maximum (for a maximum that is a number of rounds).
\<close>

lemma execute_model_calls:
  assumes "execute e ag q = Inr (r, st)"
  shows "int (model_calls (trace st)) \<le> max 0 \<lceil>config_maxToolRounds ag\<rceil> + 1"
proof -
  let ?P = "\<lambda>s. int (model_calls (trace s)) = toolRounds s \<and>
                toolRounds s \<le> max 0 \<lceil>config_maxToolRounds ag\<rceil>"
  have "\<exists>s. ?P s \<and>
       (of_int (toolRounds s) < config_maxToolRounds ag \<and>
          execute_round e ag (getAllToolDefinitions e) s = Inr (Return r st) \<or>
        \<not> of_int (toolRounds s) < config_maxToolRounds ag \<and> forced_finish e ag s = Inr (r, st))"
  proof (rule execute_loop_end [where P = ?P])
    show "execute_loop e ag (getAllToolDefinitions e) (init_state e q) = Inr (r, st)"
      using assms by (simp add: execute_def)
    show "?P (init_state e q)" by (simp add: init_state_def)
  next
    fix s s'
    assume p: "?P s" "of_int (toolRounds s) < config_maxToolRounds ag"
      and c: "execute_round e ag (getAllToolDefinitions e) s = Inr (Continue s')"
    from c show "?P s'" using p(1) of_int_less_ceiling [OF p(2)]
      by (elim execute_round_Continue) simp
  qed
  then obtain s where P: "?P s" and
    d: "of_int (toolRounds s) < config_maxToolRounds ag \<and> execute_round e ag (getAllToolDefinitions e) s = Inr (Return r st) \<or>
        forced_finish e ag s = Inr (r, st)"
    by blast
  from d show ?thesis
  proof
    assume "of_int (toolRounds s) < config_maxToolRounds ag \<and> execute_round e ag (getAllToolDefinitions e) s = Inr (Return r st)"
    then have lt: "of_int (toolRounds s) < config_maxToolRounds ag"
      and ret: "execute_round e ag (getAllToolDefinitions e) s = Inr (Return r st)" by simp_all
    from ret show ?thesis using P of_int_less_ceiling [OF lt] by (elim execute_round_Return) simp
  next
    assume "forced_finish e ag s = Inr (r, st)"
    then show ?thesis using P by (elim forced_finish_Inr) simp
  qed
qed

subsection \<open>The events around a dispatch\<close>

lemma map_of_set_property:
  "map_of (set_property k v props) = (map_of props)(k \<mapsto> v)"
  by (induction props) (auto simp: fun_eq_iff)

lemma keys_set_property:
  "map fst (set_property k v props) =
     (if k \<in> set (map fst props) then map fst props else map fst props @ [k])"
  by (induction props) force+

lemma set_property_new:
  "k \<notin> set (map fst props) \<Longrightarrow> set_property k v props = props @ [(k, v)]"
  by (induction props) auto

lemma stream_round_dispatch:
  assumes answer: "chatStream e (model_calls (trace st)) (messages st)
                     (with_tools (config_llmOptions ag) tls) = (chunks, None)"
    and drained: "consume_chunks chunks [] None
                     (record_interaction
                        (ChatStream_call (messages st) (with_tools (config_llmOptions ag) tls)) st) =
                  Drained acc (Some tcs) st2"
    and nonempty: "tcs \<noteq> []"
    and results: "results = executeToolCalls e (dispatches (trace st)) tcs (agent_context ag)"
    and contract: "length tcs \<le> length results"
    and payload: "Success JUndefined \<notin> set (take (length tcs) results)"
  shows "\<exists>st'. stream_round e ag tls st = Inr (Continue st') \<and>
           toolRounds st' = toolRounds st + 1 \<and>
           messages st' = messages st @ assistant_message tcs # tool_messages e tcs results \<and>
           toolsUsed st' = toolsUsed st @ map function_name tcs \<and>
           trace st' = trace st @
             ChatStream_call (messages st) (with_tools (config_llmOptions ag) tls) #
             map Emit (content_chunks chunks) @
             map Emit (map (tool_start_chunk e ag) tcs) @
             Dispatch tcs #
             map Emit (tool_result_chunks tcs results)"
proof -
  define opts where "opts = with_tools (config_llmOptions ag) tls"
  define s3 where "s3 = announce_tools e ag tcs st2"
  have f2: "messages st2 = messages st" "toolsUsed st2 = toolsUsed st" "toolRounds st2 = toolRounds st"
    "trace st2 = trace st @ ChatStream_call (messages st) opts # map Emit (content_chunks chunks)"
    using consume_chunks_Drained [OF drained] by (simp_all add: record_interaction_def opts_def)
  have f3: "messages s3 = messages st" "toolsUsed s3 = toolsUsed st" "toolRounds s3 = toolRounds st"
    "trace s3 = trace st @ ChatStream_call (messages st) opts # map Emit (content_chunks chunks) @
       map Emit (map (tool_start_chunk e ag) tcs)"
    using announce_tools_fields [of e ag tcs st2] f2 by (simp_all add: s3_def)
  have d: "dispatches (trace s3) = dispatches (trace st)"
    by (simp add: f3)
  have "length tcs \<le> length (executeToolCalls e (dispatches (trace s3)) tcs (agent_context ag))"
    "Success JUndefined \<notin>
       set (take (length tcs) (executeToolCalls e (dispatches (trace s3)) tcs (agent_context ag)))"
    using contract payload results d by simp_all
  from handleToolCalls_total [OF this] obtain s4 where
    h: "handleToolCalls e ag tcs True s3 = Inr s4" by blast
  have round: "stream_round e ag tls st = Inr (Continue (s4\<lparr>toolRounds := toolRounds s4 + 1\<rparr>))"
    using answer drained nonempty h
    by (simp add: stream_round_def Let_def s3_def)
  show ?thesis
    using round handleToolCalls_Inr(1-5) [OF h] f3 d results
    by (intro exI [of _ "s4\<lparr>toolRounds := toolRounds s4 + 1\<rparr>"]) (simp add: opts_def)
qed

text \<open>
  The \<^verbatim>\<open>toolParams\<close> of a \<^verbatim>\<open>tool_start\<close> chunk: nothing when the arguments do not
  parse; the parsed value when the context has no time filter or the tool is not one of
  the two search tools; otherwise an object with the properties of the parsed value, in
  their order, and the property \<^verbatim>\<open>_timeFilter\<close> holding the two bounds of the filter,
  in the place of a property of that name or else at the end.
\<close>

lemma tool_start_params_cases:
  "(JSON_parse e (if function_arguments tc = [] then ''{}'' else function_arguments tc) = None \<longrightarrow>
      tool_start_params e ag tc = None) \<and>
   (JSON_parse e (if function_arguments tc = [] then ''{}'' else function_arguments tc) = Some v \<and>
    (timeFilter (agent_context ag) = None \<or>
     function_name tc \<noteq> ''search_messages'' \<and> function_name tc \<noteq> ''get_recent_messages'') \<longrightarrow>
      tool_start_params e ag tc = Some v) \<and>
   (JSON_parse e (if function_arguments tc = [] then ''{}'' else function_arguments tc) = Some (JObj props) \<and>
    timeFilter (agent_context ag) = Some f \<and>
    (function_name tc = ''search_messages'' \<or> function_name tc = ''get_recent_messages'') \<longrightarrow>
      (\<exists>merged. tool_start_params e ag tc = Some (JObj merged) \<and>
         map_of merged =
           (map_of props)(''_timeFilter'' \<mapsto>
              JObj [(''startTs'', number_value (startTs f)), (''endTs'', number_value (endTs f))]) \<and>
         map fst merged =
           (if ''_timeFilter'' \<in> set (map fst props) then map fst props
            else map fst props @ [''_timeFilter'']) \<and>
         (''_timeFilter'' \<notin> set (map fst props) \<longrightarrow>
            merged = props @ [(''_timeFilter'',
              JObj [(''startTs'', number_value (startTs f)), (''endTs'', number_value (endTs f))])]))) \<and>
   (JSON_parse e (if function_arguments tc = [] then ''{}'' else function_arguments tc) = Some v \<and>
    timeFilter (agent_context ag) = Some f \<and>
    (function_name tc = ''search_messages'' \<or> function_name tc = ''get_recent_messages'') \<longrightarrow>
      (\<exists>merged. tool_start_params e ag tc = Some (JObj merged) \<and>
         map_of merged =
           (map_of (case v of
                      JObj props \<Rightarrow> props
                    | JArr xs \<Rightarrow> zip (map decimal [0..<length xs]) xs
                    | JStr s \<Rightarrow> zip (map decimal [0..<length s]) (map (\<lambda>c. JStr [c]) s)
                    | _ \<Rightarrow> []))
           (''_timeFilter'' \<mapsto>
              JObj [(''startTs'', number_value (startTs f)), (''endTs'', number_value (endTs f))])))"
  by (auto simp: tool_start_params_def map_of_set_property keys_set_property set_property_new
        spread_def timeFilter_value_def split: option.splits)

text \<open>
  With a result for every call and a payload in every success: in a round of
  \<^verbatim>\<open>executeStream\<close> whose stream ends with a non-empty retained list of tool calls,
  the agent emits, after the content chunks, one \<^verbatim>\<open>tool_start\<close> chunk per call in the
  order of the calls, then calls \<^verbatim>\<open>executeToolCalls\<close>, then emits one
  \<^verbatim>\<open>tool_result\<close> chunk per call in the same order, with the payload of a success or
  the error text of a failure, and goes on to the next round.
\<close>

lemma tool_events_around_dispatch:
  assumes "chatStream e (model_calls (trace st)) (messages st)
             (with_tools (config_llmOptions ag) tls) = (chunks, None)"
    and "consume_chunks chunks [] None
           (record_interaction
              (ChatStream_call (messages st) (with_tools (config_llmOptions ag) tls)) st) =
         Drained acc (Some tcs) st2"
    and "tcs \<noteq> []"
    and "results = executeToolCalls e (dispatches (trace st)) tcs (agent_context ag)"
    and "length tcs \<le> length results"
    and "Success JUndefined \<notin> set (take (length tcs) results)"
  shows "(\<exists>st'. stream_round e ag tls st = Inr (Continue st') \<and>
           toolRounds st' = toolRounds st + 1 \<and>
           trace st' = trace st @
             ChatStream_call (messages st) (with_tools (config_llmOptions ag) tls) #
             map Emit (content_chunks chunks) @
             map (\<lambda>tc. Emit (Tool_start (function_name tc) (tool_start_params e ag tc))) tcs @
             Dispatch tcs #
             map (\<lambda>(tc, r). Emit (Tool_result (function_name tc)
                                  (case r of Success v \<Rightarrow> v | Failure err \<Rightarrow> JStr err)))
                 (zip tcs results)) \<and>
         length (zip tcs results) = length tcs"
proof -
  from stream_round_dispatch [OF assms] obtain st' where
    "stream_round e ag tls st = Inr (Continue st')"
    "toolRounds st' = toolRounds st + 1"
    "trace st' = trace st @
             ChatStream_call (messages st) (with_tools (config_llmOptions ag) tls) #
             map Emit (content_chunks chunks) @
             map Emit (map (tool_start_chunk e ag) tcs) @
             Dispatch tcs #
             map Emit (tool_result_chunks tcs results)" by blast
  then have "\<exists>st'. stream_round e ag tls st = Inr (Continue st') \<and>
           toolRounds st' = toolRounds st + 1 \<and>
           trace st' = trace st @
             ChatStream_call (messages st) (with_tools (config_llmOptions ag) tls) #
             map Emit (content_chunks chunks) @
             map (\<lambda>tc. Emit (Tool_start (function_name tc) (tool_start_params e ag tc))) tcs @
             Dispatch tcs #
             map (\<lambda>(tc, r). Emit (Tool_result (function_name tc)
                                  (case r of Success v \<Rightarrow> v | Failure err \<Rightarrow> JStr err)))
                 (zip tcs results)"
    by (simp add: tool_start_chunk_def tool_result_chunks_def tool_result_value_def comp_def
          case_prod_unfold)
  moreover have "length (zip tcs results) = length tcs"
    using assms(5) by simp
  ultimately show ?thesis by blast
qed

text \<open>
  A search with keywords, a call with broken arguments and a call without arguments,
  under a filtered context.
\<close>

lemma tool_events_example:
  "\<exists>st'. stream_round search_env (new_Agent filtered_context empty_config) [] (init_state search_env ''hi'') =
            Inr (Continue st') \<and>
     emitted (trace st') =
       [Tool_start ''search_messages''
          (Some (JObj [(''keywords'', JArr [JStr ''a'']),
                       (''_timeFilter'', JObj [(''startTs'', JNum 100), (''endTs'', JNum 200)])])),
        Tool_start ''get_member_stats'' None,
        Tool_start ''get_recent_messages''
          (Some (JObj [(''_timeFilter'', JObj [(''startTs'', JNum 100), (''endTs'', JNum 200)])])),
        Tool_result ''search_messages'' (JNum 0),
        Tool_result ''get_member_stats'' (JStr ''bad arguments''),
        Tool_result ''get_recent_messages'' (JNum 0)] \<and>
     dispatches (trace st') = 1"
  by (simp add: run_defs search_env_def search_call_def broken_call_def recent_call_def
        filtered_context_def empty_config_def keywords_json_def keywords_value_def
        spread_def timeFilter_value_def number_value_def emitted_def)

text \<open>
  C5. The events around a dispatch are cut short by a success without payload. In a
  round of \<^verbatim>\<open>executeStream\<close> whose stream retains three calls, of which the second
  succeeds with \<^verbatim>\<open>undefined\<close>, \<^verbatim>\<open>handleToolCalls\<close> throws a TypeError in the
  iteration of the second call: the third call gets no \<^verbatim>\<open>tool_result\<close> chunk, the round
  does not go on and the run ends with the error. The loop over the results handles the
  first call and stops with the error at the second.
\<close>

theorem tool_results_cut_short:
  "stream_round no_payload_env (new_Agent no_filter_context empty_config) []
     (init_state no_payload_env ''hi'') = Inl TypeError \<and>
   executeStream (Suc n) no_payload_env (new_Agent no_filter_context empty_config) ''hi'' =
     Some (Inl TypeError) \<and>
   executeToolCalls no_payload_env 0 [search_call, time_stats_call, stats_call] no_filter_context =
     [Success (JNum 0), Success JUndefined, Failure ''no data''] \<and>
   add_tool_messages no_payload_env True [search_call, time_stats_call, stats_call]
     [Success (JNum 0), Success JUndefined, Failure ''no data''] st = Inl TypeError \<and>
   add_tool_messages no_payload_env True [search_call]
     [Success (JNum 0), Success JUndefined, Failure ''no data''] st =
     Inr (st\<lparr>messages := messages st @ [tool_message ''0'' ''call_2''],
              toolsUsed := toolsUsed st @ [''search_messages''],
              trace := trace st @ [Emit (Tool_result ''search_messages'' (JNum 0))]\<rparr>)"
  by (simp add: run_defs no_payload_env_def stats_call_def time_stats_call_def search_call_def
        no_filter_context_def empty_config_def keywords_json_def keywords_value_def)

subsection \<open>The history\<close>

lemma tool_links_from_prefix:
  "tool_links_from a (xs @ ys) \<Longrightarrow> tool_links_from a xs"
  by (induction xs arbitrary: a) (auto split: Role.splits)

lemma tool_links_from_user:
  "tool_links_from a xs \<Longrightarrow> tool_links_from a (xs @ [message User p])"
  by (induction xs arbitrary: a) (auto simp: message_def split: Role.splits)

lemma tool_messages_simps [simp]:
  "tool_messages e [] rs = []"
  "tool_messages e tcs [] = []"
  "tool_messages e (tc # tcs) (r # rs) =
     tool_message (tool_message_content e r) (call_id tc) # tool_messages e tcs rs"
  by (simp_all add: tool_messages_def)

lemma tool_links_from_answers:
  "set tcs' \<subseteq> set tcs \<Longrightarrow>
     tool_links_from (Some (assistant_message tcs)) (tool_messages e tcs' rs)"
proof (induction tcs' arbitrary: rs)
  case Nil
  show ?case by simp
next
  case (Cons tc tcs')
  show ?case
  proof (cases rs)
    case Nil
    then show ?thesis by simp
  next
    case (Cons r rs')
    have "answers_request (assistant_message tcs) (tool_message (tool_message_content e r) (call_id tc))"
      using Cons.prems
      by (auto simp: answers_request_def assistant_message_def tool_message_def list_ex_iff)
    with Cons.IH [of rs'] Cons.prems Cons show ?thesis
      by (simp add: tool_message_def)
  qed
qed

lemma tool_links_from_round:
  "tool_links_from a xs \<Longrightarrow>
     tool_links_from a (xs @ assistant_message tcs # tool_messages e tcs rs)"
proof (induction xs arbitrary: a)
  case Nil
  show ?case using tool_links_from_answers [of tcs tcs e rs]
    by (simp add: assistant_message_def)
next
  case (Cons x xs)
  then show ?case by (auto split: Role.splits)
qed

lemma history_ok_init: "history_ok e q (init_state e q)"
  by (simp add: history_ok_def init_state_def seed_def tool_links_def message_def)

lemma history_ok_step:
  assumes ok: "history_ok e q s"
    and hist: "histories (trace s') = histories (trace s) @ [h]"
    and p1: "prefix (messages s) h" and p2: "prefix h (messages s')"
    and links: "tool_links (messages s')"
  shows "history_ok e q s'"
proof -
  from ok have sorted: "sorted_wrt prefix (histories (trace s))"
    and below: "\<forall>x\<in>set (histories (trace s)). prefix x (messages s)"
    and all: "\<forall>x\<in>set (histories (trace s)). prefix (seed e q) x \<and> tool_links x"
    and seed: "prefix (seed e q) (messages s)"
    by (auto simp: history_ok_def Let_def sorted_wrt_append list_all_iff)
  from p2 obtain zs where "messages s' = h @ zs" by (auto simp: prefix_def)
  with links have lh: "tool_links h"
    using tool_links_from_prefix [of None h zs] by (simp add: tool_links_def)
  have "\<forall>x\<in>set (histories (trace s)). prefix x h \<and> prefix x (messages s')"
    using below p1 p2 by (meson prefix_order.trans)
  moreover have "prefix (seed e q) h" "prefix (seed e q) (messages s')"
    using seed p1 p2 by (meson prefix_order.trans)+
  ultimately show ?thesis
    using sorted all lh links p2 hist
    by (auto simp: history_ok_def Let_def sorted_wrt_append list_all_iff)
qed

lemma history_ok_execute_round:
  assumes "history_ok e q s" and "execute_round e ag tls s = Inr (Continue s')"
  shows "history_ok e q s'"
proof -
  from assms(1) have l: "tool_links (messages s)"
    by (simp add: history_ok_def Let_def)
  from assms(2) show ?thesis
  proof (rule execute_round_Continue)
    fix response tcs
    assume m: "messages s' = messages s @ assistant_message tcs #
        tool_messages e tcs (executeToolCalls e (dispatches (trace s)) tcs (agent_context ag))"
      and t: "trace s' = trace s @ [Chat_call (messages s) (with_tools (config_llmOptions ag) tls), Dispatch tcs]"
    show ?thesis
    proof (rule history_ok_step [OF assms(1), where h = "messages s"])
      show "histories (trace s') = histories (trace s) @ [messages s]" by (simp add: t)
      show "prefix (messages s) (messages s)" by simp
      show "prefix (messages s) (messages s')" by (simp add: m)
      show "tool_links (messages s')"
        using l tool_links_from_round [of None "messages s"] by (simp add: m tool_links_def)
    qed
  qed
qed

lemma history_ok_stream_round:
  assumes "history_ok e q s" and "stream_round e ag tls s = Inr (Continue s')"
  shows "history_ok e q s'"
proof -
  from assms(1) have l: "tool_links (messages s)"
    by (simp add: history_ok_def Let_def)
  from assms(2) show ?thesis
  proof (cases rule: stream_round_Continue)
    case stalled
    show ?thesis
    proof (rule history_ok_step [OF assms(1), where h = "messages s"])
      show "histories (trace s') = histories (trace s) @ [messages s]" by (simp add: stalled)
      show "prefix (messages s) (messages s)" by simp
      show "prefix (messages s) (messages s')" by (simp add: stalled)
      show "tool_links (messages s')" using l by (simp add: stalled)
    qed
  next
    case (dispatched tcs)
    show ?thesis
    proof (rule history_ok_step [OF assms(1), where h = "messages s"])
      show "histories (trace s') = histories (trace s) @ [messages s]" by (simp add: dispatched)
      show "prefix (messages s) (messages s)" by simp
      show "prefix (messages s) (messages s')" by (simp add: dispatched)
      show "tool_links (messages s')"
        using l tool_links_from_round [of None "messages s"] by (simp add: dispatched tool_links_def)
    qed
  qed
qed

lemma history_ok_return:
  assumes "history_ok e q s"
    and "messages st = messages s" and "histories (trace st) = histories (trace s) @ [messages s]"
  shows "history_ok e q st"
proof (rule history_ok_step [OF assms(1), where h = "messages s"])
  show "histories (trace st) = histories (trace s) @ [messages s]" by fact
  show "prefix (messages s) (messages s)" by simp
  show "prefix (messages s) (messages st)" by (simp add: assms(2))
  show "tool_links (messages st)" using assms(1) by (simp add: assms(2) history_ok_def Let_def)
qed

lemma history_ok_forced:
  assumes "history_ok e q s"
    and "messages st = messages s @ [message User forced_finish_prompt]"
    and "histories (trace st) = histories (trace s) @ [messages st]"
  shows "history_ok e q st"
proof (rule history_ok_step [OF assms(1), where h = "messages st"])
  show "histories (trace st) = histories (trace s) @ [messages st]" by fact
  show "prefix (messages s) (messages st)" by (simp add: assms(2))
  show "prefix (messages st) (messages st)" by simp
  show "tool_links (messages st)"
    using assms(1) tool_links_from_user [of None "messages s"]
    by (simp add: assms(2) history_ok_def Let_def tool_links_def)
qed

lemma execute_history_ok:
  assumes "execute e ag q = Inr (r, st)"
  shows "history_ok e q st"
proof -
  have "\<exists>s. history_ok e q s \<and>
       (of_int (toolRounds s) < config_maxToolRounds ag \<and>
          execute_round e ag (getAllToolDefinitions e) s = Inr (Return r st) \<or>
        \<not> of_int (toolRounds s) < config_maxToolRounds ag \<and> forced_finish e ag s = Inr (r, st))"
  proof (rule execute_loop_end [where P = "history_ok e q"])
    show "execute_loop e ag (getAllToolDefinitions e) (init_state e q) = Inr (r, st)"
      using assms by (simp add: execute_def)
    show "history_ok e q (init_state e q)" by (rule history_ok_init)
  next
    fix s s'
    assume "history_ok e q s" "execute_round e ag (getAllToolDefinitions e) s = Inr (Continue s')"
    then show "history_ok e q s'" by (rule history_ok_execute_round)
  qed
  then obtain s where P: "history_ok e q s" and
    d: "execute_round e ag (getAllToolDefinitions e) s = Inr (Return r st) \<or> forced_finish e ag s = Inr (r, st)"
    by blast
  from d show ?thesis
  proof
    assume "execute_round e ag (getAllToolDefinitions e) s = Inr (Return r st)"
    then show ?thesis
      by (elim execute_round_Return) (rule history_ok_return [OF P], simp_all)
  next
    assume "forced_finish e ag s = Inr (r, st)"
    then show ?thesis
      by (elim forced_finish_Inr) (rule history_ok_forced [OF P], simp_all)
  qed
qed

lemma executeStream_history_ok:
  assumes "executeStream n e ag q = Some (Inr (r, st))"
  shows "history_ok e q st"
proof -
  have "\<exists>s. history_ok e q s \<and>
       (of_int (toolRounds s) < config_maxToolRounds ag \<and>
          stream_round e ag (getAllToolDefinitions e) s = Inr (Return r st) \<or>
        \<not> of_int (toolRounds s) < config_maxToolRounds ag \<and> forced_finish_stream e ag s = Inr (r, st))"
  proof (rule executeStream_loop_end [where P = "history_ok e q"])
    show "executeStream_loop n e ag (getAllToolDefinitions e) (init_state e q) = Some (Inr (r, st))"
      using assms by (simp add: executeStream_def)
    show "history_ok e q (init_state e q)" by (rule history_ok_init)
  next
    fix s s'
    assume "history_ok e q s" "stream_round e ag (getAllToolDefinitions e) s = Inr (Continue s')"
    then show "history_ok e q s'" by (rule history_ok_stream_round)
  qed
  then obtain s where P: "history_ok e q s" and
    d: "stream_round e ag (getAllToolDefinitions e) s = Inr (Return r st) \<or>
        forced_finish_stream e ag s = Inr (r, st)"
    by blast
  from d show ?thesis
  proof
    assume "stream_round e ag (getAllToolDefinitions e) s = Inr (Return r st)"
    then show ?thesis
      by (elim stream_round_Return) (rule history_ok_return [OF P], simp_all)
  next
    assume "forced_finish_stream e ag s = Inr (r, st)"
    then show ?thesis
      by (elim forced_finish_stream_Inr) (rule history_ok_forced [OF P], simp_all)
  qed
qed

text \<open>
  C6. The history is seeded with the system prompt and the user question and then only
  appended to: the property \<open>history_ok\<close> holds at the start of a run, every round of
  \<^verbatim>\<open>execute\<close> and of \<^verbatim>\<open>executeStream\<close> that goes on keeps it, and it holds when a run
  returns. It says that the histories the model was called with, followed by the final
  one, form a chain of prefixes starting with the seed, and that in each of them every
  tool message follows an assistant message of empty content, with only tool messages
  between them, whose \<^verbatim>\<open>tool_calls\<close> has an entry with the message's \<^verbatim>\<open>tool_call_id\<close>.
\<close>

theorem history_append_only_and_linked:
  "history_ok e q (init_state e q) \<and>
   (history_ok e q s \<and> execute_round e ag tls s = Inr (Continue s') \<longrightarrow> history_ok e q s') \<and>
   (history_ok e q s \<and> stream_round e ag tls s = Inr (Continue s') \<longrightarrow> history_ok e q s') \<and>
   (execute e ag q = Inr (r, st) \<longrightarrow>
      sorted_wrt prefix (histories (trace st) @ [messages st]) \<and>
      list_all (\<lambda>h. prefix (seed e q) h \<and> tool_links h) (histories (trace st) @ [messages st])) \<and>
   (executeStream n e ag q = Some (Inr (r', st')) \<longrightarrow>
      sorted_wrt prefix (histories (trace st') @ [messages st']) \<and>
      list_all (\<lambda>h. prefix (seed e q) h \<and> tool_links h) (histories (trace st') @ [messages st']))"
  using history_ok_init [of e q] history_ok_execute_round [of e q s ag tls s']
    history_ok_stream_round [of e q s ag tls s'] execute_history_ok [of e ag q r st]
    executeStream_history_ok [of n e ag q r' st']
  by (auto simp: history_ok_def Let_def)

text \<open>A run of two tool rounds: three model calls, seven messages.\<close>

theorem history_append_only_and_linked_witness:
  "\<exists>r st. execute (tool_loop_env ''ok'') (new_Agent no_filter_context two_rounds) ''hi'' = Inr (r, st) \<and>
     length (histories (trace st)) = 3 \<and> length (messages st) = 7 \<and>
     sorted_wrt prefix (histories (trace st) @ [messages st]) \<and>
     list_all (\<lambda>h. prefix (seed (tool_loop_env ''ok'') ''hi'') h \<and> tool_links h)
       (histories (trace st) @ [messages st])"
proof -
  have "\<exists>r st. execute (tool_loop_env ''ok'') (new_Agent no_filter_context two_rounds) ''hi'' = Inr (r, st) \<and>
      length (histories (trace st)) = 3 \<and> length (messages st) = 7"
    by (simp add: run_defs tool_loop_env_def two_rounds_def no_filter_context_def stats_call_def)
  then obtain r st where
    a: "execute (tool_loop_env ''ok'') (new_Agent no_filter_context two_rounds) ''hi'' = Inr (r, st)"
      "length (histories (trace st)) = 3" "length (messages st) = 7" by blast
  from history_append_only_and_linked [where e = "tool_loop_env ''ok''" and q = "''hi''"
      and ag = "new_Agent no_filter_context two_rounds" and r = r and st = st] a
  show ?thesis by blast
qed

subsection \<open>Tool failures and the end of a run\<close>

lemma consume_chunks_Returned_retained:
  "consume_chunks chunks acc tcs st = Returned final st' \<Longrightarrow> retained chunks tcs = None"
  by (induction chunks arbitrary: acc tcs st) (auto simp: Let_def split: if_splits)

lemma consume_chunks_Drained_retained:
  "consume_chunks chunks acc tcs st = Drained acc' tcs' st' \<Longrightarrow> retained chunks tcs = Some tcs'"
  by (induction chunks arbitrary: acc tcs st) (auto simp: Let_def split: if_splits)

lemma retained_None:
  assumes "retained chunks tcs = None"
  shows "\<exists>final st'. consume_chunks chunks acc tcs st = Returned final st'"
proof (cases "consume_chunks chunks acc tcs st")
  case (Returned final st')
  then show ?thesis by blast
next
  case (Drained acc' tcs' st')
  from consume_chunks_Drained_retained [OF this] assms show ?thesis by simp
qed

lemma retained_Some:
  assumes "retained chunks tcs = Some t"
  shows "\<exists>acc' st'. consume_chunks chunks acc tcs st = Drained acc' t st'"
proof (cases "consume_chunks chunks acc tcs st")
  case (Returned final st')
  from consume_chunks_Returned_retained [OF this] assms show ?thesis by simp
next
  case (Drained acc' tcs' st')
  from consume_chunks_Drained_retained [OF this] assms Drained show ?thesis by simp
qed

lemma execute_round_tool_decision:
  assumes "chat e (model_calls (trace st)) (messages st) (with_tools (config_llmOptions ag) tls) = Inr response"
    and "response_finishReason response = ''tool_calls''"
    and "response_tool_calls response = Some tcs"
    and "results = executeToolCalls e (dispatches (trace st)) tcs (agent_context ag)"
    and "length tcs \<le> length results"
    and "Success JUndefined \<notin> set (take (length tcs) results)"
  shows "\<exists>st'. execute_round e ag tls st = Inr (Continue st') \<and>
           toolRounds st' = toolRounds st + 1 \<and>
           messages st' = messages st @ assistant_message tcs # tool_messages e tcs results \<and>
           toolsUsed st' = toolsUsed st @ map function_name tcs \<and>
           trace st' = trace st @
             [Chat_call (messages st) (with_tools (config_llmOptions ag) tls), Dispatch tcs]"
proof -
  define st1 where
    "st1 = record_interaction (Chat_call (messages st) (with_tools (config_llmOptions ag) tls)) st"
  have f1: "messages st1 = messages st" "toolsUsed st1 = toolsUsed st" "toolRounds st1 = toolRounds st"
    "trace st1 = trace st @ [Chat_call (messages st) (with_tools (config_llmOptions ag) tls)]"
    by (simp_all add: st1_def record_interaction_def)
  have "length tcs \<le> length (executeToolCalls e (dispatches (trace st1)) tcs (agent_context ag))"
    "Success JUndefined \<notin>
       set (take (length tcs) (executeToolCalls e (dispatches (trace st1)) tcs (agent_context ag)))"
    using assms(4-6) f1 by simp_all
  from handleToolCalls_total [OF this] obtain s2 where
    h: "handleToolCalls e ag tcs False st1 = Inr s2" by blast
  have "execute_round e ag tls st = Inr (Continue (s2\<lparr>toolRounds := toolRounds s2 + 1\<rparr>))"
    using assms(1-3) h by (simp add: execute_round_def Let_def st1_def)
  then show ?thesis
    using handleToolCalls_Inr(1-5) [OF h] f1 assms(4)
    by (intro exI [of _ "s2\<lparr>toolRounds := toolRounds s2 + 1\<rparr>"]) simp
qed

lemma execute_round_not_Inl:
  assumes "\<And>k ms opts. \<exists>response. chat e k ms opts = Inr response"
    and "\<And>k tcs c. length tcs \<le> length (executeToolCalls e k tcs c) \<and>
           Success JUndefined \<notin> set (executeToolCalls e k tcs c)"
  shows "\<exists>out. execute_round e ag tls st = Inr out"
proof -
  from assms(1) obtain response where
    c: "chat e (model_calls (trace st)) (messages st) (with_tools (config_llmOptions ag) tls) = Inr response"
    by blast
  show ?thesis
  proof (cases "response_tool_calls response")
    case None
    with c show ?thesis by (simp add: execute_round_def Let_def)
  next
    case (Some tcs)
    show ?thesis
    proof (cases "response_finishReason response = ''tool_calls''")
      case True
      from execute_round_tool_decision [OF c True Some refl answered_batch [OF assms(2)]]
      show ?thesis by blast
    next
      case False
      with c Some show ?thesis by (simp add: execute_round_def Let_def)
    qed
  qed
qed

lemma forced_finish_not_Inl:
  assumes "\<And>k ms opts. \<exists>response. chat e k ms opts = Inr response"
  shows "\<exists>res. forced_finish e ag st = Inr res"
proof -
  from assms obtain response where
    "chat e (model_calls (trace (push_message (message User forced_finish_prompt) st)))
       (messages (push_message (message User forced_finish_prompt) st)) (config_llmOptions ag) = Inr response"
    by blast
  then show ?thesis by (simp add: forced_finish_def Let_def)
qed

lemma execute_completes:
  assumes "\<And>k ms opts. \<exists>response. chat e k ms opts = Inr response"
    and "\<And>k tcs c. length tcs \<le> length (executeToolCalls e k tcs c) \<and>
           Success JUndefined \<notin> set (executeToolCalls e k tcs c)"
  shows "\<exists>r st. execute e ag q = Inr (r, st)"
proof -
  have "\<exists>res. execute_loop e ag (getAllToolDefinitions e) (init_state e q) = Inr res"
    by (rule execute_loop_total) (rule execute_round_not_Inl [OF assms], rule forced_finish_not_Inl [OF assms(1)])
  then show ?thesis by (simp add: execute_def)
qed

lemma stream_round_not_Inl:
  assumes "\<And>k ms opts. snd (chatStream e k ms opts) = None"
    and "\<And>k tcs c. length tcs \<le> length (executeToolCalls e k tcs c) \<and>
           Success JUndefined \<notin> set (executeToolCalls e k tcs c)"
  shows "\<exists>out. stream_round e ag tls st = Inr out"
proof -
  define opts where "opts = with_tools (config_llmOptions ag) tls"
  define answer where "answer = chatStream e (model_calls (trace st)) (messages st) opts"
  define st1 where "st1 = record_interaction (ChatStream_call (messages st) opts) st"
  have noerr: "snd answer = None" using assms(1) by (simp add: answer_def)
  show ?thesis
  proof (cases "consume_chunks (fst answer) [] None st1")
    case (Returned final s2)
    then show ?thesis
      by (simp add: stream_round_def Let_def opts_def answer_def st1_def)
  next
    case (Drained acc otcs s2)
    show ?thesis
    proof (cases "otcs = None \<or> otcs = Some []")
      case True
      with Drained noerr show ?thesis
        by (auto simp: stream_round_def Let_def opts_def answer_def st1_def)
    next
      case False
      then obtain tcs where tcs: "otcs = Some tcs" "tcs \<noteq> []" by auto
      from handleToolCalls_total [OF answered_batch [OF assms(2)]] obtain s4 where
        "handleToolCalls e ag tcs True (announce_tools e ag tcs s2) = Inr s4" by blast
      with Drained noerr tcs show ?thesis
        by (simp add: stream_round_def Let_def opts_def answer_def st1_def)
    qed
  qed
qed

lemma forced_finish_stream_not_Inl:
  assumes "\<And>k ms opts. snd (chatStream e k ms opts) = None"
  shows "\<exists>res. forced_finish_stream e ag st = Inr res"
  using assms by (simp add: forced_finish_stream_def Let_def)

lemma executeStream_loop_not_Inl:
  assumes "\<And>k ms opts. snd (chatStream e k ms opts) = None"
    and "\<And>k tcs c. length tcs \<le> length (executeToolCalls e k tcs c) \<and>
           Success JUndefined \<notin> set (executeToolCalls e k tcs c)"
  shows "executeStream_loop n e ag tls st \<noteq> Some (Inl err)"
proof (induction n arbitrary: st)
  case 0
  show ?case using forced_finish_stream_not_Inl [OF assms(1), of ag st] by auto
next
  case (Suc n)
  from stream_round_not_Inl [OF assms, of ag tls st] obtain out where
    out: "stream_round e ag tls st = Inr out" by blast
  show ?case
    using forced_finish_stream_not_Inl [OF assms(1), of ag st] out Suc.IH
    by (cases out) auto
qed

lemma stream_round_decisive:
  assumes noerr: "\<And>k ms opts. snd (chatStream e k ms opts) = None"
    and contract: "\<And>k tcs c. length tcs \<le> length (executeToolCalls e k tcs c) \<and>
           Success JUndefined \<notin> set (executeToolCalls e k tcs c)"
    and dec: "\<And>k ms opts. decisive (fst (chatStream e k ms opts))"
  shows "(\<exists>r st'. stream_round e ag tls st = Inr (Return r st')) \<or>
         (\<exists>st'. stream_round e ag tls st = Inr (Continue st') \<and> toolRounds st' = toolRounds st + 1)"
proof -
  define opts where "opts = with_tools (config_llmOptions ag) tls"
  define answer where "answer = chatStream e (model_calls (trace st)) (messages st) opts"
  define st1 where "st1 = record_interaction (ChatStream_call (messages st) opts) st"
  have a: "chatStream e (model_calls (trace st)) (messages st) opts = (fst answer, None)"
    using noerr [of "model_calls (trace st)" "messages st" opts]
    by (simp add: answer_def prod_eq_iff)
  have d: "decisive (fst answer)" using dec by (simp add: answer_def)
  show ?thesis
  proof (cases "retained (fst answer) None")
    case None
    from retained_None [OF this, of "[]" st1] obtain final s2 where
      "consume_chunks (fst answer) [] None st1 = Returned final s2" by blast
    then show ?thesis
      by (simp add: stream_round_def Let_def opts_def answer_def st1_def)
  next
    case (Some otcs)
    with d obtain tcs where tcs: "otcs = Some tcs" "tcs \<noteq> []"
      by (cases otcs) (simp_all add: decisive_def)
    from retained_Some [OF Some, of "[]" st1] tcs obtain acc s2 where
      c: "consume_chunks (fst answer) [] None st1 = Drained acc (Some tcs) s2" by blast
    from stream_round_dispatch [OF a [unfolded opts_def] c [unfolded st1_def opts_def] tcs(2) refl
        answered_batch [OF contract]]
    show ?thesis by blast
  qed
qed

lemma executeStream_loop_completes:
  assumes noerr: "\<And>k ms opts. snd (chatStream e k ms opts) = None"
    and contract: "\<And>k tcs c. length tcs \<le> length (executeToolCalls e k tcs c) \<and>
           Success JUndefined \<notin> set (executeToolCalls e k tcs c)"
    and dec: "\<And>k ms opts. decisive (fst (chatStream e k ms opts))"
  shows "nat (\<lceil>config_maxToolRounds ag\<rceil> - toolRounds st) \<le> n \<Longrightarrow>
         \<exists>res. executeStream_loop n e ag tls st = Some (Inr res)"
proof (induction n arbitrary: st)
  case 0
  then have "\<not> of_int (toolRounds st) < config_maxToolRounds ag"
    by (simp add: less_ceiling_iff [symmetric])
  then show ?case using forced_finish_stream_not_Inl [OF noerr, of ag st] by auto
next
  case (Suc n)
  show ?case
  proof (cases "of_int (toolRounds st) < config_maxToolRounds ag")
    case False
    then show ?thesis using forced_finish_stream_not_Inl [OF noerr, of ag st] by auto
  next
    case True
    from stream_round_decisive [OF assms, of ag tls st] show ?thesis
    proof
      assume "\<exists>r st'. stream_round e ag tls st = Inr (Return r st')"
      with True show ?thesis by auto
    next
      assume "\<exists>st'. stream_round e ag tls st = Inr (Continue st') \<and> toolRounds st' = toolRounds st + 1"
      then obtain st' where r: "stream_round e ag tls st = Inr (Continue st')"
        and t: "toolRounds st' = toolRounds st + 1" by blast
      from t Suc.prems of_int_less_ceiling [OF True]
      have "nat (\<lceil>config_maxToolRounds ag\<rceil> - toolRounds st') \<le> n" by simp
      from Suc.IH [OF this] r True show ?thesis by simp
    qed
  qed
qed

lemma tool_messages_nth:
  "i < length tcs \<Longrightarrow> length tcs \<le> length results \<Longrightarrow>
     tool_messages e tcs results ! i =
       tool_message (tool_message_content e (results ! i)) (call_id (tcs ! i))"
  by (simp add: tool_messages_def)

text \<open>
  With a dispatcher that answers with a result for every call and a payload in every
  success: \<^verbatim>\<open>handleToolCalls\<close> appends, after the assistant message, one tool message
  per call; for a failed call it is the error text after the source's prefix, under the
  id of that call. A round that dispatches goes on to the next round with
  \<^verbatim>\<open>toolRounds\<close> one higher, in both modes, however many of the results are failures.
  If the model transport never fails, \<^verbatim>\<open>execute\<close> returns a result;
  \<^verbatim>\<open>executeStream\<close> never ends in an error, and returns a result within as many
  rounds as the maximum when every stream is decisive.
\<close>

lemma tool_failures_absorbed:
  fixes e :: env and ag :: Agent and st :: run_state and tcs :: "ToolCall list"
    and tls :: "ToolDefinition list"
  assumes contract: "\<And>k tcs c. length tcs \<le> length (executeToolCalls e k tcs c) \<and>
           Success JUndefined \<notin> set (executeToolCalls e k tcs c)"
  defines "results \<equiv> executeToolCalls e (dispatches (trace st)) tcs (agent_context ag)"
  defines "opts \<equiv> with_tools (config_llmOptions ag) tls"
  shows
   "(\<exists>st'. handleToolCalls e ag tcs notify st = Inr st' \<and>
        messages st' = messages st @ assistant_message tcs # tool_messages e tcs results) \<and>
    (i < length tcs \<and> results ! i = Failure reason \<longrightarrow>
        tool_messages e tcs results ! i =
          \<lparr>role = Tool, content = error_prefix @ reason, tool_calls = None,
           tool_call_id = Some (call_id (tcs ! i))\<rparr>) \<and>
    (chat e (model_calls (trace st)) (messages st) opts = Inr response \<and>
     response_finishReason response = ''tool_calls'' \<and> response_tool_calls response = Some tcs \<longrightarrow>
        (\<exists>st'. execute_round e ag tls st = Inr (Continue st') \<and> toolRounds st' = toolRounds st + 1)) \<and>
    (snd (chatStream e (model_calls (trace st)) (messages st) opts) = None \<and>
     retained (fst (chatStream e (model_calls (trace st)) (messages st) opts)) None = Some (Some tcs) \<and>
     tcs \<noteq> [] \<longrightarrow>
        (\<exists>st'. stream_round e ag tls st = Inr (Continue st') \<and> toolRounds st' = toolRounds st + 1)) \<and>
    ((\<forall>k ms op. \<exists>answer. chat e k ms op = Inr answer) \<longrightarrow>
        (\<exists>r st'. execute e ag q = Inr (r, st'))) \<and>
    ((\<forall>k ms op. snd (chatStream e k ms op) = None) \<longrightarrow>
        executeStream n e ag q \<noteq> Some (Inl err)) \<and>
    ((\<forall>k ms op. snd (chatStream e k ms op) = None \<and> decisive (fst (chatStream e k ms op))) \<and>
     nat \<lceil>config_maxToolRounds ag\<rceil> \<le> n \<longrightarrow>
        (\<exists>r st'. executeStream n e ag q = Some (Inr (r, st'))))"
proof -
  note batch = answered_batch [OF contract]
  have c1: "\<exists>st'. handleToolCalls e ag tcs notify st = Inr st' \<and>
        messages st' = messages st @ assistant_message tcs # tool_messages e tcs results"
  proof -
    from handleToolCalls_total [OF batch] obtain st' where
      h: "handleToolCalls e ag tcs notify st = Inr st'" by blast
    from handleToolCalls_Inr(2) [OF h] h show ?thesis by (auto simp: results_def)
  qed
  have c2: "i < length tcs \<and> results ! i = Failure reason \<longrightarrow>
        tool_messages e tcs results ! i =
          \<lparr>role = Tool, content = error_prefix @ reason, tool_calls = None,
           tool_call_id = Some (call_id (tcs ! i))\<rparr>"
    using tool_messages_nth [of i tcs results e] batch(1) [of tcs "dispatches (trace st)" "agent_context ag"]
    by (auto simp: results_def tool_message_def tool_message_content_def)
  have c3: "chat e (model_calls (trace st)) (messages st) opts = Inr response \<and>
     response_finishReason response = ''tool_calls'' \<and> response_tool_calls response = Some tcs \<longrightarrow>
        (\<exists>st'. execute_round e ag tls st = Inr (Continue st') \<and> toolRounds st' = toolRounds st + 1)"
  proof
    assume a: "chat e (model_calls (trace st)) (messages st) opts = Inr response \<and>
     response_finishReason response = ''tool_calls'' \<and> response_tool_calls response = Some tcs"
    from execute_round_tool_decision [of e st ag tls response tcs results] a batch
    show "\<exists>st'. execute_round e ag tls st = Inr (Continue st') \<and> toolRounds st' = toolRounds st + 1"
      unfolding opts_def results_def by blast
  qed
  have c4: "snd (chatStream e (model_calls (trace st)) (messages st) opts) = None \<and>
     retained (fst (chatStream e (model_calls (trace st)) (messages st) opts)) None = Some (Some tcs) \<and>
     tcs \<noteq> [] \<longrightarrow>
        (\<exists>st'. stream_round e ag tls st = Inr (Continue st') \<and> toolRounds st' = toolRounds st + 1)"
  proof
    assume a: "snd (chatStream e (model_calls (trace st)) (messages st) opts) = None \<and>
     retained (fst (chatStream e (model_calls (trace st)) (messages st) opts)) None = Some (Some tcs) \<and>
     tcs \<noteq> []"
    define chunks where "chunks = fst (chatStream e (model_calls (trace st)) (messages st) opts)"
    have ans: "chatStream e (model_calls (trace st)) (messages st) opts = (chunks, None)"
      using a by (simp add: chunks_def prod_eq_iff)
    from a have "retained chunks None = Some (Some tcs)" by (simp add: chunks_def)
    from retained_Some [OF this, of "[]" "record_interaction (ChatStream_call (messages st) opts) st"]
    obtain acc s2 where
      c: "consume_chunks chunks [] None (record_interaction (ChatStream_call (messages st) opts) st) =
          Drained acc (Some tcs) s2" by blast
    from a have ne: "tcs \<noteq> []" by simp
    from stream_round_dispatch [OF ans [unfolded opts_def] c [unfolded opts_def] ne refl batch]
    show "\<exists>st'. stream_round e ag tls st = Inr (Continue st') \<and> toolRounds st' = toolRounds st + 1"
      by blast
  qed
  have c5: "(\<forall>k ms op. \<exists>answer. chat e k ms op = Inr answer) \<longrightarrow>
        (\<exists>r st'. execute e ag q = Inr (r, st'))"
    using execute_completes [of e ag q] contract by blast
  have c6: "(\<forall>k ms op. snd (chatStream e k ms op) = None) \<longrightarrow>
        executeStream n e ag q \<noteq> Some (Inl err)"
    using executeStream_loop_not_Inl [of e n ag "getAllToolDefinitions e" "init_state e q" err] contract
    by (auto simp: executeStream_def)
  have c7: "(\<forall>k ms op. snd (chatStream e k ms op) = None \<and> decisive (fst (chatStream e k ms op))) \<and>
     nat \<lceil>config_maxToolRounds ag\<rceil> \<le> n \<longrightarrow>
        (\<exists>r st'. executeStream n e ag q = Some (Inr (r, st')))"
  proof
    assume a: "(\<forall>k ms op. snd (chatStream e k ms op) = None \<and> decisive (fst (chatStream e k ms op))) \<and>
     nat \<lceil>config_maxToolRounds ag\<rceil> \<le> n"
    then have "nat (\<lceil>config_maxToolRounds ag\<rceil> - toolRounds (init_state e q)) \<le> n"
      by (simp add: init_state_def)
    from executeStream_loop_completes [OF _ contract _ this, of "getAllToolDefinitions e"] a
    show "\<exists>r st'. executeStream n e ag q = Some (Inr (r, st'))"
      by (auto simp: executeStream_def)
  qed
  from c1 c2 c3 c4 c5 c6 c7 show ?thesis by blast
qed

text \<open>A run whose every tool call fails returns the model's final text, in both modes.\<close>

lemma tool_failures_example:
  "(\<exists>r st. execute (tool_loop_env ''ok'') (new_Agent no_filter_context two_rounds) ''hi'' = Inr (r, st) \<and>
     result_content r = ''ok'' \<and> result_toolRounds r = 2 \<and>
     messages st ! 3 = \<lparr>role = Tool, content = error_prefix @ ''no data'', tool_calls = None,
                         tool_call_id = Some ''call_1''\<rparr>) \<and>
   (\<exists>r st. executeStream 2 (tool_loop_env ''ok'') (new_Agent no_filter_context two_rounds) ''hi'' =
       Some (Inr (r, st)) \<and>
     result_content r = ''ok'' \<and> result_toolRounds r = 2 \<and>
     messages st ! 3 = \<lparr>role = Tool, content = error_prefix @ ''no data'', tool_calls = None,
                         tool_call_id = Some ''call_1''\<rparr>)"
  by (simp add: run_defs tool_loop_env_def two_rounds_def no_filter_context_def stats_call_def
        numeral_2_eq_2)

text \<open>
  C7. A failed call is lost, and the run with it, when a call before it in the same batch
  succeeds without payload. Under a dispatcher whose second result is a success with
  \<^verbatim>\<open>undefined\<close> and whose third is a failure, \<^verbatim>\<open>handleToolCalls\<close> throws a TypeError
  in the iteration of the second call: the failed call gets no tool message, the round
  does not go on, and \<^verbatim>\<open>execute\<close> and \<^verbatim>\<open>executeStream\<close> end with the error, although
  the model transport never failed. In general \<^verbatim>\<open>handleToolCalls\<close> throws exactly when
  a result is missing or a success among the results has no payload: a failure among
  the results is never what makes it throw.
\<close>

theorem failed_call_lost_without_payload:
  "execute no_payload_env (new_Agent no_filter_context empty_config) ''hi'' = Inl TypeError \<and>
   executeStream (Suc n) no_payload_env (new_Agent no_filter_context empty_config) ''hi'' =
     Some (Inl TypeError) \<and>
   executeToolCalls no_payload_env 0 [search_call, time_stats_call, stats_call] no_filter_context =
     [Success (JNum 0), Success JUndefined, Failure ''no data''] \<and>
   handleToolCalls no_payload_env (new_Agent no_filter_context empty_config)
     [search_call, time_stats_call, stats_call] notify (init_state no_payload_env ''hi'') = Inl TypeError \<and>
   (handleToolCalls e ag tcs notify st = Inl err \<longleftrightarrow>
      err = TypeError \<and>
      (length (executeToolCalls e (dispatches (trace st)) tcs (agent_context ag)) < length tcs \<or>
       Success JUndefined \<in>
         set (take (length tcs) (executeToolCalls e (dispatches (trace st)) tcs (agent_context ag)))))"
proof -
  have "execute no_payload_env (new_Agent no_filter_context empty_config) ''hi'' = Inl TypeError"
    by (simp add: run_defs no_payload_env_def stats_call_def time_stats_call_def search_call_def
          no_filter_context_def empty_config_def keywords_json_def keywords_value_def)
  moreover have "executeStream (Suc n) no_payload_env (new_Agent no_filter_context empty_config) ''hi'' =
     Some (Inl TypeError)"
    by (simp add: run_defs no_payload_env_def stats_call_def time_stats_call_def search_call_def
          no_filter_context_def empty_config_def keywords_json_def keywords_value_def)
  moreover have "executeToolCalls no_payload_env 0 [search_call, time_stats_call, stats_call]
      no_filter_context = [Success (JNum 0), Success JUndefined, Failure ''no data'']"
    by (simp add: no_payload_env_def stats_call_def time_stats_call_def search_call_def)
  moreover have "handleToolCalls no_payload_env (new_Agent no_filter_context empty_config)
     [search_call, time_stats_call, stats_call] notify (init_state no_payload_env ''hi'') = Inl TypeError"
    by (simp add: run_defs no_payload_env_def stats_call_def time_stats_call_def search_call_def)
  ultimately show ?thesis
    using handleToolCalls_fails [of e ag tcs notify st err] by (simp only: simp_thms)
qed

subsection \<open>The forced finish\<close>

lemma user_messages_round:
  "user_messages (ms @ assistant_message tcs # tool_messages e tcs rs) = user_messages ms"
  by (simp add: user_messages_def assistant_message_def tool_messages_def tool_message_def
        filter_empty_conv case_prod_unfold)

lemma execute_tool_round:
  assumes "\<And>k tcs c. length tcs \<le> length (executeToolCalls e k tcs c) \<and>
           Success JUndefined \<notin> set (executeToolCalls e k tcs c)"
    and "\<And>k ms op. \<exists>response tcs. chat e k ms op = Inr response \<and>
           response_finishReason response = ''tool_calls'' \<and> response_tool_calls response = Some tcs"
  obtains st' where
    "execute_round e ag tls st = Inr (Continue st')"
    "toolRounds st' = toolRounds st + 1"
    "user_messages (messages st') = user_messages (messages st)"
    "prefix (messages st) (messages st')"
    "dispatches (trace st') = dispatches (trace st) + 1"
    "model_calls (trace st') = model_calls (trace st) + 1"
    "call_options (trace st') = call_options (trace st) @ [with_tools (config_llmOptions ag) tls]"
proof -
  from assms(2) obtain response tcs where
    c: "chat e (model_calls (trace st)) (messages st) (with_tools (config_llmOptions ag) tls) = Inr response"
      "response_finishReason response = ''tool_calls''" "response_tool_calls response = Some tcs"
    by blast
  from execute_round_tool_decision [OF c refl answered_batch [OF assms(1)]] obtain st' where
    r: "execute_round e ag tls st = Inr (Continue st')"
    and f: "toolRounds st' = toolRounds st + 1"
      "messages st' = messages st @ assistant_message tcs #
         tool_messages e tcs (executeToolCalls e (dispatches (trace st)) tcs (agent_context ag))"
      "trace st' = trace st @ [Chat_call (messages st) (with_tools (config_llmOptions ag) tls), Dispatch tcs]"
    by blast
  show ?thesis
    using r f by (intro that [of st']) (simp_all add: user_messages_round)
qed

lemma stream_tool_round:
  assumes "\<And>k tcs c. length tcs \<le> length (executeToolCalls e k tcs c) \<and>
           Success JUndefined \<notin> set (executeToolCalls e k tcs c)"
    and "\<And>k ms op. snd (chatStream e k ms op) = None \<and>
           (\<exists>tcs. retained (fst (chatStream e k ms op)) None = Some (Some tcs) \<and> tcs \<noteq> [])"
  obtains st' where
    "stream_round e ag tls st = Inr (Continue st')"
    "toolRounds st' = toolRounds st + 1"
    "user_messages (messages st') = user_messages (messages st)"
    "prefix (messages st) (messages st')"
    "dispatches (trace st') = dispatches (trace st) + 1"
    "model_calls (trace st') = model_calls (trace st) + 1"
    "call_options (trace st') = call_options (trace st) @ [with_tools (config_llmOptions ag) tls]"
proof -
  define opts where "opts = with_tools (config_llmOptions ag) tls"
  define chunks where "chunks = fst (chatStream e (model_calls (trace st)) (messages st) opts)"
  from assms(2) [of "model_calls (trace st)" "messages st" opts] obtain tcs where
    ans: "chatStream e (model_calls (trace st)) (messages st) opts = (chunks, None)"
    and ret: "retained chunks None = Some (Some tcs)" and ne: "tcs \<noteq> []"
    by (auto simp: chunks_def prod_eq_iff)
  from retained_Some [OF ret, of "[]" "record_interaction (ChatStream_call (messages st) opts) st"]
  obtain acc s2 where
    c: "consume_chunks chunks [] None (record_interaction (ChatStream_call (messages st) opts) st) =
        Drained acc (Some tcs) s2" by blast
  from stream_round_dispatch [OF ans [unfolded opts_def] c [unfolded opts_def] ne refl
      answered_batch [OF assms(1)]]
  obtain st' where
    r: "stream_round e ag tls st = Inr (Continue st')"
    and f: "toolRounds st' = toolRounds st + 1"
      "messages st' = messages st @ assistant_message tcs #
         tool_messages e tcs (executeToolCalls e (dispatches (trace st)) tcs (agent_context ag))"
      "trace st' = trace st @
             ChatStream_call (messages st) (with_tools (config_llmOptions ag) tls) #
             map Emit (content_chunks chunks) @
             map Emit (map (tool_start_chunk e ag) tcs) @
             Dispatch tcs #
             map Emit (tool_result_chunks tcs
               (executeToolCalls e (dispatches (trace st)) tcs (agent_context ag)))"
    by blast
  show ?thesis
    using r f by (intro that [of st']) (simp_all add: user_messages_round)
qed

lemma executeStream_loop_budget_used:
  "\<not> of_int (toolRounds st) < config_maxToolRounds ag \<Longrightarrow>
     executeStream_loop n e ag tls st = Some (forced_finish_stream e ag st)"
  by (cases n) simp_all

lemma user_messages_init: "user_messages (messages (init_state e q)) = [message User q]"
  by (simp add: user_messages_def init_state_def message_def)

text \<open>
  C4. Let the maximum be 2, let every answer of the model be a tool-call decision (in
  streaming mode: every stream ends, without an error, retaining a non-empty list of
  calls), let the dispatcher answer with a result for every call and a payload in every
  success, and let the configured options carry no tools. Then \<^verbatim>\<open>execute\<close>, and
  \<^verbatim>\<open>executeStream\<close> given two iterations or more, perform exactly two dispatch rounds
  with the tools advertised, append one user message (the history then holds the
  question and this message as its user messages), call the model once more without
  tools, on the history as it is returned, and return the text of that third answer as
  content. Nothing makes that text non-empty.
\<close>

theorem forced_finish_after_two_rounds:
  assumes budget: "config_maxToolRounds ag = 2"
    and contract: "\<And>k tcs c. length tcs \<le> length (executeToolCalls e k tcs c) \<and>
           Success JUndefined \<notin> set (executeToolCalls e k tcs c)"
    and always_chat: "\<And>k ms op. \<exists>response tcs. chat e k ms op = Inr response \<and>
           response_finishReason response = ''tool_calls'' \<and> response_tool_calls response = Some tcs"
    and always_stream: "\<And>k ms op. snd (chatStream e k ms op) = None \<and>
           (\<exists>tcs. retained (fst (chatStream e k ms op)) None = Some (Some tcs) \<and> tcs \<noteq> [])"
    and no_tools: "tools (config_llmOptions ag) = None"
    and fuel: "2 \<le> n"
  shows
   "(\<exists>r st final.
        execute e ag q = Inr (r, st) \<and>
        result_toolRounds r = 2 \<and> dispatches (trace st) = 2 \<and> model_calls (trace st) = 3 \<and>
        map tools (call_options (trace st)) =
          [Some (getAllToolDefinitions e), Some (getAllToolDefinitions e), None] \<and>
        last (histories (trace st)) = messages st \<and>
        last (messages st) = message User forced_finish_prompt \<and>
        user_messages (messages st) = [message User q, message User forced_finish_prompt] \<and>
        chat e 2 (messages st) (last (call_options (trace st))) = Inr final \<and>
        result_content r = response_content final) \<and>
    (\<exists>r st.
        executeStream n e ag q = Some (Inr (r, st)) \<and>
        result_toolRounds r = 2 \<and> dispatches (trace st) = 2 \<and> model_calls (trace st) = 3 \<and>
        map tools (call_options (trace st)) =
          [Some (getAllToolDefinitions e), Some (getAllToolDefinitions e), None] \<and>
        last (histories (trace st)) = messages st \<and>
        last (messages st) = message User forced_finish_prompt \<and>
        user_messages (messages st) = [message User q, message User forced_finish_prompt] \<and>
        snd (chatStream e 2 (messages st) (last (call_options (trace st)))) = None \<and>
        result_content r =
          concat (map chunk_text (fst (chatStream e 2 (messages st) (last (call_options (trace st)))))))"
proof
  let ?tls = "getAllToolDefinitions e"
  let ?st0 = "init_state e q"
  have i: "toolRounds ?st0 = 0" "dispatches (trace ?st0) = 0" "model_calls (trace ?st0) = 0"
    "call_options (trace ?st0) = []"
    by (simp_all add: init_state_def)
  have chat_total: "\<And>k ms op. \<exists>response. chat e k ms op = Inr response"
    using always_chat by blast
  show "\<exists>r st final.
        execute e ag q = Inr (r, st) \<and>
        result_toolRounds r = 2 \<and> dispatches (trace st) = 2 \<and> model_calls (trace st) = 3 \<and>
        map tools (call_options (trace st)) = [Some ?tls, Some ?tls, None] \<and>
        last (histories (trace st)) = messages st \<and>
        last (messages st) = message User forced_finish_prompt \<and>
        user_messages (messages st) = [message User q, message User forced_finish_prompt] \<and>
        chat e 2 (messages st) (last (call_options (trace st))) = Inr final \<and>
        result_content r = response_content final"
  proof -
    obtain st1 where
      r1: "execute_round e ag ?tls ?st0 = Inr (Continue st1)"
      and g1: "toolRounds st1 = toolRounds ?st0 + 1"
        "user_messages (messages st1) = user_messages (messages ?st0)"
        "prefix (messages ?st0) (messages st1)"
        "dispatches (trace st1) = dispatches (trace ?st0) + 1"
        "model_calls (trace st1) = model_calls (trace ?st0) + 1"
        "call_options (trace st1) = call_options (trace ?st0) @ [with_tools (config_llmOptions ag) ?tls]"
      by (rule execute_tool_round [OF contract always_chat, of ag ?tls ?st0]) (rule that)
    have f1: "toolRounds st1 = 1" "user_messages (messages st1) = [message User q]"
        "dispatches (trace st1) = 1" "model_calls (trace st1) = 1"
        "call_options (trace st1) = [with_tools (config_llmOptions ag) ?tls]"
      using g1 by (simp_all add: i user_messages_init)
    obtain st2 where
      r2: "execute_round e ag ?tls st1 = Inr (Continue st2)"
      and g2: "toolRounds st2 = toolRounds st1 + 1"
        "user_messages (messages st2) = user_messages (messages st1)"
        "prefix (messages st1) (messages st2)"
        "dispatches (trace st2) = dispatches (trace st1) + 1"
        "model_calls (trace st2) = model_calls (trace st1) + 1"
        "call_options (trace st2) = call_options (trace st1) @ [with_tools (config_llmOptions ag) ?tls]"
      by (rule execute_tool_round [OF contract always_chat, of ag ?tls st1]) (rule that)
    have f2: "toolRounds st2 = 2" "user_messages (messages st2) = [message User q]"
        "dispatches (trace st2) = 2" "model_calls (trace st2) = 2"
        "call_options (trace st2) =
           [with_tools (config_llmOptions ag) ?tls, with_tools (config_llmOptions ag) ?tls]"
      using g2 by (simp_all add: f1)
    from forced_finish_not_Inl [OF chat_total, of ag st2] obtain r st where
      fin: "forced_finish e ag st2 = Inr (r, st)" by auto
    have run: "execute e ag q = Inr (r, st)"
      using r1 r2 fin i f1 f2 budget
      by (simp add: execute_def execute_loop.simps [of e ag ?tls ?st0]
            execute_loop.simps [of e ag ?tls st1] execute_loop.simps [of e ag ?tls st2])
    from fin show ?thesis
    proof (rule forced_finish_Inr)
      fix response
      assume "chat e (model_calls (trace st2)) (messages st) (config_llmOptions ag) = Inr response"
        "r = result_of (response_content response) st"
        "messages st = messages st2 @ [message User forced_finish_prompt]"
        "toolsUsed st = toolsUsed st2" "toolRounds st = toolRounds st2"
        "trace st = trace st2 @ [Chat_call (messages st) (config_llmOptions ag)]"
      with run f2 no_tools show ?thesis
        by (intro exI [of _ r] exI [of _ st] exI [of _ response])
           (simp add: result_of_def user_messages_def message_def with_tools_def)
    qed
  qed
  show "\<exists>r st.
        executeStream n e ag q = Some (Inr (r, st)) \<and>
        result_toolRounds r = 2 \<and> dispatches (trace st) = 2 \<and> model_calls (trace st) = 3 \<and>
        map tools (call_options (trace st)) = [Some ?tls, Some ?tls, None] \<and>
        last (histories (trace st)) = messages st \<and>
        last (messages st) = message User forced_finish_prompt \<and>
        user_messages (messages st) = [message User q, message User forced_finish_prompt] \<and>
        snd (chatStream e 2 (messages st) (last (call_options (trace st)))) = None \<and>
        result_content r =
          concat (map chunk_text (fst (chatStream e 2 (messages st) (last (call_options (trace st))))))"
  proof -
    from fuel obtain m where n: "n = Suc (Suc m)"
      by (metis Suc_le_D numeral_2_eq_2 Suc_le_mono)
    obtain st1 where
      r1: "stream_round e ag ?tls ?st0 = Inr (Continue st1)"
      and g1: "toolRounds st1 = toolRounds ?st0 + 1"
        "user_messages (messages st1) = user_messages (messages ?st0)"
        "prefix (messages ?st0) (messages st1)"
        "dispatches (trace st1) = dispatches (trace ?st0) + 1"
        "model_calls (trace st1) = model_calls (trace ?st0) + 1"
        "call_options (trace st1) = call_options (trace ?st0) @ [with_tools (config_llmOptions ag) ?tls]"
      by (rule stream_tool_round [OF contract always_stream, of ag ?tls ?st0]) (rule that)
    have f1: "toolRounds st1 = 1" "user_messages (messages st1) = [message User q]"
        "dispatches (trace st1) = 1" "model_calls (trace st1) = 1"
        "call_options (trace st1) = [with_tools (config_llmOptions ag) ?tls]"
      using g1 by (simp_all add: i user_messages_init)
    obtain st2 where
      r2: "stream_round e ag ?tls st1 = Inr (Continue st2)"
      and g2: "toolRounds st2 = toolRounds st1 + 1"
        "user_messages (messages st2) = user_messages (messages st1)"
        "prefix (messages st1) (messages st2)"
        "dispatches (trace st2) = dispatches (trace st1) + 1"
        "model_calls (trace st2) = model_calls (trace st1) + 1"
        "call_options (trace st2) = call_options (trace st1) @ [with_tools (config_llmOptions ag) ?tls]"
      by (rule stream_tool_round [OF contract always_stream, of ag ?tls st1]) (rule that)
    have f2: "toolRounds st2 = 2" "user_messages (messages st2) = [message User q]"
        "dispatches (trace st2) = 2" "model_calls (trace st2) = 2"
        "call_options (trace st2) =
           [with_tools (config_llmOptions ag) ?tls, with_tools (config_llmOptions ag) ?tls]"
      using g2 by (simp_all add: f1)
    have noerr: "\<And>k ms op. snd (chatStream e k ms op) = None"
      using always_stream by blast
    from forced_finish_stream_not_Inl [OF noerr, of ag st2] obtain r st where
      fin: "forced_finish_stream e ag st2 = Inr (r, st)" by auto
    have "executeStream_loop m e ag ?tls st2 = Some (forced_finish_stream e ag st2)"
      by (rule executeStream_loop_budget_used) (simp add: f2 budget)
    then have run: "executeStream n e ag q = Some (Inr (r, st))"
      using r1 r2 fin i f1 budget
      by (simp add: executeStream_def n)
    from fin show ?thesis
    proof (rule forced_finish_stream_Inr)
      fix cs
      assume "snd (chatStream e (model_calls (trace st2)) (messages st) (config_llmOptions ag)) = None"
        "result_content r = concat (map chunk_text
           (fst (chatStream e (model_calls (trace st2)) (messages st) (config_llmOptions ag))))"
        "result_toolsUsed r = toolsUsed st" "result_toolRounds r = toolRounds st"
        "messages st = messages st2 @ [message User forced_finish_prompt]"
        "toolsUsed st = toolsUsed st2" "toolRounds st = toolRounds st2"
        "trace st = trace st2 @ ChatStream_call (messages st) (config_llmOptions ag) # map Emit cs"
      with run f2 no_tools show ?thesis
        by (intro exI [of _ r] exI [of _ st])
           (simp add: user_messages_def message_def with_tools_def)
    qed
  qed
qed

text \<open>A model whose answers carry a tool call and no text: two rounds, three calls, empty content.\<close>

theorem forced_finish_empty_answer:
  "(case execute (tool_loop_env []) (new_Agent no_filter_context two_rounds) ''hi'' of
      Inl err \<Rightarrow> False
    | Inr (r, st) \<Rightarrow>
        result_toolRounds r = 2 \<and> dispatches (trace st) = 2 \<and> model_calls (trace st) = 3 \<and>
        result_content r = [])"
  by (simp add: run_defs tool_loop_env_def two_rounds_def no_filter_context_def stats_call_def)

text \<open>The same model with the text \<open>ok\<close>, under the default options.\<close>

theorem forced_finish_after_two_rounds_witness:
  "\<exists>r st r' st'.
     execute (tool_loop_env ''ok'') (new_Agent no_filter_context two_rounds) ''hi'' = Inr (r, st) \<and>
     executeStream 2 (tool_loop_env ''ok'') (new_Agent no_filter_context two_rounds) ''hi'' =
       Some (Inr (r', st')) \<and>
     result_toolRounds r = 2 \<and> result_toolRounds r' = 2 \<and>
     map tools (call_options (trace st)) = [Some [], Some [], None] \<and>
     map tools (call_options (trace st')) = [Some [], Some [], None] \<and>
     user_messages (messages st) = [message User ''hi'', message User forced_finish_prompt] \<and>
     user_messages (messages st') = [message User ''hi'', message User forced_finish_prompt] \<and>
     result_content r = ''ok'' \<and> result_content r' = ''ok''"
proof -
  let ?e = "tool_loop_env ''ok''"
  let ?ag = "new_Agent no_filter_context two_rounds"
  have budget: "config_maxToolRounds ?ag = 2"
    by (simp add: new_Agent_def two_rounds_def)
  have contract: "\<And>k tcs c. length tcs \<le> length (executeToolCalls ?e k tcs c) \<and>
      Success JUndefined \<notin> set (executeToolCalls ?e k tcs c)"
    by (auto simp: tool_loop_env_def)
  have always_chat: "\<And>k ms op. \<exists>response tcs. chat ?e k ms op = Inr response \<and>
      response_finishReason response = ''tool_calls'' \<and> response_tool_calls response = Some tcs"
    by (simp add: tool_loop_env_def)
  have always_stream: "\<And>k ms op. snd (chatStream ?e k ms op) = None \<and>
      (\<exists>tcs. retained (fst (chatStream ?e k ms op)) None = Some (Some tcs) \<and> tcs \<noteq> [])"
    by (simp add: tool_loop_env_def)
  have no_tools: "tools (config_llmOptions ?ag) = None"
    by (simp add: new_Agent_def two_rounds_def default_llmOptions_def)
  have fuel: "(2::nat) \<le> 2" by simp
  note run = forced_finish_after_two_rounds
    [OF budget contract always_chat always_stream no_tools fuel, of "''hi''"]
  from run [THEN conjunct1] obtain r st final where
    a: "execute ?e ?ag ''hi'' = Inr (r, st)" "result_toolRounds r = 2"
      "map tools (call_options (trace st)) =
          [Some (getAllToolDefinitions ?e), Some (getAllToolDefinitions ?e), None]"
      "user_messages (messages st) = [message User ''hi'', message User forced_finish_prompt]"
      "chat ?e 2 (messages st) (last (call_options (trace st))) = Inr final"
      "result_content r = response_content final"
    by (elim exE conjE) (rule that; assumption)
  from run [THEN conjunct2] obtain r' st' where
    b: "executeStream 2 ?e ?ag ''hi'' = Some (Inr (r', st'))" "result_toolRounds r' = 2"
      "map tools (call_options (trace st')) =
          [Some (getAllToolDefinitions ?e), Some (getAllToolDefinitions ?e), None]"
      "user_messages (messages st') = [message User ''hi'', message User forced_finish_prompt]"
      "result_content r' =
          concat (map chunk_text (fst (chatStream ?e 2 (messages st') (last (call_options (trace st'))))))"
    by (elim exE conjE) (rule that; assumption)
  from a(5,6) have "result_content r = ''ok''"
    by (auto simp: tool_loop_env_def)
  moreover from b(5) have "result_content r' = ''ok''"
    by (simp add: tool_loop_env_def chunk_text_def)
  moreover have "map tools (call_options (trace st)) = [Some [], Some [], None]"
    "map tools (call_options (trace st')) = [Some [], Some [], None]"
    using a(3) b(3) by (simp_all add: tool_loop_env_def)
  ultimately show ?thesis using a(1,2,4) b(1,2,4)
    by (intro exI [of _ r] exI [of _ st] exI [of _ r'] exI [of _ st']) simp
qed

section \<open>Properties of the tool executors\<close>

subsection \<open>The code's day numbers against the calendar\<close>
























lemmas calendar_defs = local_instant_def days_since_epoch_def days_in_year_def days_in_month_def is_leap_year_def










subsection \<open>Time windows\<close>



subsection \<open>A falsy year or month\<close>




subsection \<open>The limit of a search\<close>

text \<open>
  C10. The limit \<^verbatim>\<open>searchMessagesExecutor\<close> forwards to the data store is
  \<^verbatim>\<open>min(params.limit, 5000)\<close> when \<^verbatim>\<open>params.limit\<close> is positive and 200 when it is absent
  or 0; the last conjunct says that the executor calls the store with it.
\<close>

theorem search_limit_forwarded:
  "(0 < n \<longrightarrow>
      search_forwarded_limit w \<lparr>limit = Some n, year = y, month = m, search_keywords = ks\<rparr> ctx = min n 5000) \<and>
   (l = None \<or> l = Some 0 \<longrightarrow>
      search_forwarded_limit w \<lparr>limit = l, year = y, month = m, search_keywords = ks\<rparr> ctx = 200) \<and>
   searchMessagesExecutor w p ctx =
     format_page w (search_timeFilter w p ctx)
       (searchMessages w (sessionId ctx) (search_keywords p) (search_timeFilter w p ctx)
          (search_forwarded_limit w p ctx) 0)"
  by (auto simp: search_timeFilter_def search_forwarded_limit_def search_request_def
        searchMessagesExecutor_def search_limit_def or_default_def truthy_def)

theorem search_limit_forwarded_witness:
  "search_forwarded_limit utc_store \<lparr>limit = Some 9000, year = None, month = None, search_keywords = []\<rparr>
      no_filter_context = 5000 \<and>
   search_forwarded_limit utc_store \<lparr>limit = Some 0, year = None, month = None, search_keywords = []\<rparr>
      no_filter_context = 200"
  using search_limit_forwarded [of 9000 utc_store None None "[]" no_filter_context "Some 0"]
  by simp

subsection \<open>Statistics over an empty activity list\<close>

text \<open>
  C9. \<^verbatim>\<open>getTimeStatsExecutor\<close> with type \<^verbatim>\<open>hourly\<close> or \<^verbatim>\<open>weekday\<close> throws a TypeError,
  and returns nothing, exactly when the data store answers with an empty list: the peak
  is a \<^verbatim>\<open>reduce\<close> without an initial value.
\<close>

theorem time_stats_throws_on_empty:
  "(getTimeStatsExecutor w Hourly ctx = Inl TypeError \<longleftrightarrow>
      getHourlyActivity w (sessionId ctx) (timeFilter ctx) = []) \<and>
   (getTimeStatsExecutor w Weekday ctx = Inl TypeError \<longleftrightarrow>
      getWeekdayActivity w (sessionId ctx) (timeFilter ctx) = [])"
  by (simp add: getTimeStatsExecutor_def reduce_no_initial_def Let_def split: list.splits)

theorem time_stats_throws_on_empty_witness:
  "getTimeStatsExecutor utc_store Hourly no_filter_context = Inl TypeError \<and>
   getTimeStatsExecutor utc_store Weekday no_filter_context = Inl TypeError"
  using time_stats_throws_on_empty [of utc_store no_filter_context]
  by (simp add: utc_store_def)

text \<open>For a type the \<^verbatim>\<open>switch\<close> does not know the executor returns \<^verbatim>\<open>undefined\<close>.\<close>

lemma time_stats_unknown_type: "getTimeStatsExecutor w Other_type ctx = Inr JUndefined"
  by (simp add: getTimeStatsExecutor_def)

end
